theory Spec2Isabelle
  imports Main "HOL-Library.Word"
begin

unbundle bit_operations_syntax

section \<open>Bytes, varints and checksums\<close>

text \<open>
  A Go \<open>byte\<close> is an 8-bit word, \<open>uint32\<close> a 32-bit word and \<open>uint64\<close> a 64-bit
  word. A \<open>[]byte\<close> is a list of bytes; Go's \<open>len\<close> of a slice is an \<open>int\<close>, so the
  lists that stand for slices are shorter than \<open>2 ^ 63\<close>.
\<close>

type_synonym byte = "8 word"

text \<open>
  Outcomes of the fallible operations: Go's \<open>(value, error)\<close> results and panics.
  \<open>EOF\<close> is \<open>io.EOF\<close>, \<open>ErrUnexpectedEOF\<close> is \<open>io.ErrUnexpectedEOF\<close>,
  \<open>ErrVarintOverflow\<close> is the error that \<open>readUvarint\<close> builds, \<open>IOError\<close> stands
  for an error of the operating system.
\<close>

datatype error =
    EOF
  | ErrUnexpectedEOF
  | ErrInvalidChecksum
  | ErrInvalidRecord
  | ErrVarintOverflow
  | IOError string

datatype 'a result = Ok 'a | Err error | Panic string

text \<open>
  \<open>binary.PutUvarint\<close> of the Go standard library, which \<open>encodeVarint\<close> calls on a
  ten-byte buffer and whose written prefix it returns:
  \<^verbatim>\<open>for x >= 0x80 { buf[i] = byte(x) | 0x80; x >>= 7; i++ }; buf[i] = byte(x)\<close>
\<close>

function PutUvarint :: "64 word \<Rightarrow> byte list" where
  "PutUvarint x =
     (if 0x80 \<le> x then (ucast x OR 0x80) # PutUvarint (drop_bit 7 x) else [ucast x])"
  by pat_completeness auto
termination
proof (relation "measure unat")
  show "wf (measure (unat :: 64 word \<Rightarrow> nat))" by simp
next
  fix x :: "64 word"
  assume "0x80 \<le> x"
  then have "128 \<le> unat x" by (simp add: word_le_nat_alt)
  then have "unat x div 128 < unat x" by simp
  then show "(drop_bit 7 x, x) \<in> measure unat"
    by (simp add: drop_bit_eq_div unat_div)
qed

definition encodeVarint :: "64 word \<Rightarrow> byte list" where
  "encodeVarint x = PutUvarint x"

text \<open>
  \<open>readUvarint\<close> reads one byte at a time from the reader, here the bytes that remain
  after the handle's offset; a read at the end of the file fails with \<open>io.EOF\<close>.
  The result is the value, the number of bytes read and the bytes that remain.
\<close>

fun readUvarint_loop ::
  "64 word \<Rightarrow> nat \<Rightarrow> nat \<Rightarrow> byte list \<Rightarrow> error + (64 word \<times> nat \<times> byte list)" where
  "readUvarint_loop x s i [] = Inl EOF"
| "readUvarint_loop x s i (b # r) =
     (if b < 0x80 then
        (if i > 9 \<or> i = 9 \<and> b > 1 then Inl ErrVarintOverflow
         else Inr (x OR push_bit s (ucast b), i + 1, r))
      else readUvarint_loop (x OR push_bit s (ucast (b AND 0x7f))) (s + 7) (Suc i) r)"

definition readUvarint :: "byte list \<Rightarrow> error + (64 word \<times> nat \<times> byte list)" where
  "readUvarint r = readUvarint_loop 0 0 0 r"

text \<open>
  \<open>crc32.ChecksumIEEE\<close> of the Go standard library, in its bitwise form: the table
  entry for a byte is eight steps of the reflected polynomial \<open>0xEDB88320\<close>.
\<close>

definition crc_bit :: "32 word \<Rightarrow> 32 word" where
  "crc_bit c = (if bit c 0 then drop_bit 1 c XOR 0xEDB88320 else drop_bit 1 c)"

definition crc_byte :: "32 word \<Rightarrow> byte \<Rightarrow> 32 word" where
  "crc_byte c b = (crc_bit ^^ 8) (c XOR ucast b)"

definition ChecksumIEEE :: "byte list \<Rightarrow> 32 word" where
  "ChecksumIEEE p = NOT (foldl crc_byte (NOT 0) p)"

text \<open>\<open>binary.LittleEndian.PutUint32\<close> and \<open>binary.LittleEndian.Uint32\<close>.\<close>

definition PutUint32 :: "32 word \<Rightarrow> byte list" where
  "PutUint32 v = [ucast v, ucast (drop_bit 8 v), ucast (drop_bit 16 v), ucast (drop_bit 24 v)]"

fun Uint32 :: "byte list \<Rightarrow> 32 word" where
  "Uint32 (b0 # b1 # b2 # b3 # _) =
     ucast b0 OR push_bit 8 (ucast b1) OR push_bit 16 (ucast b2) OR push_bit 24 (ucast b3)"
| "Uint32 _ = 0"

text \<open>
  \<open>io.ReadFull\<close> into a buffer of \<open>n\<close> bytes: nothing to read is \<open>io.EOF\<close>, fewer
  than \<open>n\<close> bytes is \<open>io.ErrUnexpectedEOF\<close>, and a buffer of length 0 is filled at once.
\<close>

definition ReadFull :: "nat \<Rightarrow> byte list \<Rightarrow> error + (byte list \<times> byte list)" where
  "ReadFull n r =
     (if n = 0 then Inr ([], r)
      else if r = [] then Inl EOF
      else if length r < n then Inl ErrUnexpectedEOF
      else Inr (take n r, drop n r))"

section \<open>The write-ahead log\<close>

definition TypePut :: byte where "TypePut = 1"
definition TypeDelete :: byte where "TypeDelete = 2"

record Record =
  Type :: byte
  Key :: "byte list"
  Value :: "byte list"

text \<open>
  The file system maps a path to the contents of the file there. An \<open>*os.File\<close> is the
  path it was opened on and the offset of the handle; \<open>size_wal\<close> is the field \<open>size\<close>
  (an \<open>int64\<close> that only grows from a file size, so a natural number here). No
  operation of the program removes a file.
\<close>

type_synonym fs = "string \<Rightarrow> byte list option"

record WAL =
  file_wal :: string
  pos_wal :: nat
  size_wal :: nat
  syncOps :: bool

record Iterator =
  file_it :: string
  offset :: nat
  fileEnd :: nat

definition contents :: "fs \<Rightarrow> string \<Rightarrow> byte list" where
  "contents f path = (case f path of None \<Rightarrow> [] | Some c \<Rightarrow> c)"

text \<open>
  What the operating system does on \<open>file.Write(buf)\<close> at handle offset \<open>pos\<close>: the
  bytes replace those at \<open>pos\<close> and extend the file where they pass its end.
\<close>

definition write_at :: "byte list \<Rightarrow> nat \<Rightarrow> byte list \<Rightarrow> byte list" where
  "write_at c pos buf =
     (if buf = [] then c
      else take pos c @ replicate (pos - length c) 0 @ buf @ drop (pos + length buf) c)"

text \<open>
  The environment decides whether a system call fails. \<open>WriteAll\<close>: \<open>file.Write\<close> wrote
  the whole buffer; \<open>WriteFail n e\<close>: it wrote \<open>n\<close> bytes of it and returned \<open>e\<close>.
  A \<open>Sync\<close>, \<open>OpenFile\<close>, \<open>Stat\<close>, \<open>Truncate\<close>, \<open>Seek\<close> or \<open>Close\<close> is given
  as \<open>None\<close> (success) or \<open>Some e\<close>.
\<close>

datatype write_outcome = WriteAll | WriteFail nat error

definition Open ::
  "error option \<Rightarrow> error option \<Rightarrow> string \<Rightarrow> bool \<Rightarrow> fs \<Rightarrow> WAL result \<times> fs" where
  "Open open_err stat_err path sync f =
     (case open_err of
        Some e \<Rightarrow> (Err e, f)
      | None \<Rightarrow>
          (let f' = (if f path = None then f(path \<mapsto> []) else f) in
           case stat_err of
             Some e \<Rightarrow> (Err e, f')
           | None \<Rightarrow>
               (Ok \<lparr>file_wal = path, pos_wal = 0,
                    size_wal = length (contents f' path), syncOps = sync\<rparr>, f')))"

definition Close :: "error option \<Rightarrow> WAL \<Rightarrow> error option" where
  "Close close_err w = close_err"

text \<open>The buffer that \<open>Write\<close> builds for one record (lines 80 to 111).\<close>

definition Write_buf :: "Record \<Rightarrow> byte list" where
  "Write_buf record =
     (let keyLen = length (Key record);
          valueLen = length (Value record);
          keyLenEncoded = encodeVarint (word_of_nat keyLen);
          valueLenEncoded = encodeVarint (word_of_nat valueLen);
          body = [Type record] @ keyLenEncoded @ valueLenEncoded @ Key record @ Value record;
          checksum = ChecksumIEEE body
      in body @ PutUint32 checksum)"

text \<open>
  The write of a buffer, the optional sync and the update of \<open>size\<close>, shared by
  \<open>Write\<close> and \<open>WriteBatch\<close> (lines 114 to 128 and 182 to 196, the same text).
\<close>

definition write_file ::
  "write_outcome \<Rightarrow> error option \<Rightarrow> byte list \<Rightarrow> fs \<times> WAL \<Rightarrow> error option \<times> fs \<times> WAL" where
  "write_file wo sync_err buf st =
     (let f = fst st; w = snd st; c = contents f (file_wal w) in
      case wo of
        WriteFail n e \<Rightarrow>
          (Some e,
           f(file_wal w \<mapsto> write_at c (pos_wal w) (take n buf)),
           w\<lparr>pos_wal := pos_wal w + length (take n buf)\<rparr>)
      | WriteAll \<Rightarrow>
          (let f' = f(file_wal w \<mapsto> write_at c (pos_wal w) buf);
               w' = w\<lparr>pos_wal := pos_wal w + length buf\<rparr>
           in if syncOps w \<and> sync_err \<noteq> None then (sync_err, f', w')
              else (None, f', w'\<lparr>size_wal := size_wal w + length buf\<rparr>)))"

definition Write ::
  "write_outcome \<Rightarrow> error option \<Rightarrow> Record \<Rightarrow> fs \<times> WAL \<Rightarrow> error option \<times> fs \<times> WAL" where
  "Write wo sync_err record st = write_file wo sync_err (Write_buf record) st"

text \<open>
  \<open>WriteBatch\<close> fills one buffer of the total size from offset 0; \<open>buf\<close> below is
  the part filled so far, \<open>buf[:offset]\<close>, and the checksum of a record is taken over
  \<open>buf[offset-recordSize : offset]\<close>.
\<close>

fun WriteBatch_loop :: "byte list \<Rightarrow> Record list \<Rightarrow> byte list" where
  "WriteBatch_loop buf [] = buf"
| "WriteBatch_loop buf (record # records) =
     (let keyLen = length (Key record);
          valueLen = length (Value record);
          keyLenEncoded = encodeVarint (word_of_nat keyLen);
          valueLenEncoded = encodeVarint (word_of_nat valueLen);
          buf1 = buf @ [Type record] @ keyLenEncoded @ valueLenEncoded
                   @ Key record @ Value record;
          recordSize = 1 + length keyLenEncoded + length valueLenEncoded + keyLen + valueLen;
          checksum = ChecksumIEEE (drop (length buf1 - recordSize) buf1)
      in WriteBatch_loop (buf1 @ PutUint32 checksum) records)"

definition WriteBatch ::
  "write_outcome \<Rightarrow> error option \<Rightarrow> Record list \<Rightarrow> fs \<times> WAL \<Rightarrow> error option \<times> fs \<times> WAL" where
  "WriteBatch wo sync_err records st = write_file wo sync_err (WriteBatch_loop [] records) st"

definition NewIterator :: "error option \<Rightarrow> WAL \<Rightarrow> Iterator result" where
  "NewIterator open_err w =
     (case open_err of
        Some e \<Rightarrow> Err e
      | None \<Rightarrow> Ok \<lparr>file_it = file_wal w, offset = 0, fileEnd = size_wal w\<rparr>)"

text \<open>
  \<open>make([]byte, n)\<close> with \<open>n\<close> a \<open>uint64\<close> panics when \<open>n\<close> does not fit an \<open>int\<close>;
  memory is not bounded otherwise.
\<close>

definition makeslice_ok :: "64 word \<Rightarrow> bool" where
  "makeslice_ok n = (unat n < 2 ^ 63)"

text \<open>
  \<open>Iterator.Next\<close>. The reads of the iterator's handle see the file as it is now;
  seeks and reads of an open file fail only at its end.
\<close>

definition Next :: "fs \<Rightarrow> Iterator \<Rightarrow> Record result \<times> Iterator" where
  "Next f it =
     (if fileEnd it \<le> offset it then (Err EOF, it)
      else
        (case drop (offset it) (contents f (file_it it)) of
           [] \<Rightarrow> (Err EOF, it)
         | recordType # r1 \<Rightarrow>
             if recordType \<noteq> TypePut \<and> recordType \<noteq> TypeDelete then (Err ErrInvalidRecord, it)
             else
               (case readUvarint r1 of
                  Inl e \<Rightarrow> (Err e, it)
                | Inr (keyLen, keyLenSize, r2) \<Rightarrow>
                    (case readUvarint r2 of
                       Inl e \<Rightarrow> (Err e, it)
                     | Inr (valueLen, valueLenSize, r3) \<Rightarrow>
                         if \<not> makeslice_ok keyLen
                         then (Panic ''makeslice: len out of range'', it)
                         else
                           (case ReadFull (unat keyLen) r3 of
                              Inl e \<Rightarrow> (Err e, it)
                            | Inr (key, r4) \<Rightarrow>
                                if \<not> makeslice_ok valueLen
                                then (Panic ''makeslice: len out of range'', it)
                                else
                                  (case ReadFull (unat valueLen) r4 of
                                     Inl e \<Rightarrow> (Err e, it)
                                   | Inr (val, r5) \<Rightarrow>
                                       (case ReadFull 4 r5 of
                                          Inl e \<Rightarrow> (Err e, it)
                                        | Inr (checksumBuf, r6) \<Rightarrow>
                                            (let recordSize = 1 + keyLenSize + valueLenSize
                                                   + unat keyLen + unat valueLen + 4
                                             in case ReadFull (recordSize - 4)
                                                       (drop (offset it) (contents f (file_it it))) of
                                                  Inl e \<Rightarrow> (Err e, it)
                                                | Inr (data, r7) \<Rightarrow>
                                                    if ChecksumIEEE data \<noteq> Uint32 checksumBuf
                                                    then (Err ErrInvalidChecksum, it)
                                                    else (Ok \<lparr>Type = recordType, Key = key,
                                                               Value = val\<rparr>,
                                                          it\<lparr>offset := offset it + recordSize\<rparr>)))))))))"

definition Truncate :: "error option \<Rightarrow> error option \<Rightarrow> fs \<times> WAL \<Rightarrow> error option \<times> fs \<times> WAL" where
  "Truncate trunc_err seek_err st =
     (let f = fst st; w = snd st in
      case trunc_err of
        Some e \<Rightarrow> (Some e, f, w)
      | None \<Rightarrow>
          (let f' = f(file_wal w \<mapsto> []) in
           case seek_err of
             Some e \<Rightarrow> (Some e, f', w)
           | None \<Rightarrow> (None, f', w\<lparr>pos_wal := 0, size_wal := 0\<rparr>)))"

text \<open>
  Callers of the log: \<open>n\<close> calls of \<open>Next\<close> on one iterator, and the calls of
  \<open>Write\<close> for a list of records, one after the other, every system call succeeding
  (the sequence stops at the first error, which then never comes).
\<close>

fun Nexts :: "nat \<Rightarrow> fs \<Rightarrow> Iterator \<Rightarrow> Record result list" where
  "Nexts 0 f it = []"
| "Nexts (Suc n) f it = (case Next f it of (res, it') \<Rightarrow> res # Nexts n f it')"

fun Writes :: "Record list \<Rightarrow> fs \<times> WAL \<Rightarrow> error option \<times> fs \<times> WAL" where
  "Writes [] st = (None, st)"
| "Writes (record # records) st =
     (case Write WriteAll None record st of
        (Some e, st') \<Rightarrow> (Some e, st')
      | (None, st') \<Rightarrow> Writes records st')"

text \<open>
  A record as the log's format knows it: a Put or a Delete whose key and value are Go
  slices.
\<close>

definition valid_record :: "Record \<Rightarrow> bool" where
  "valid_record rec \<longleftrightarrow>
     (Type rec = TypePut \<or> Type rec = TypeDelete)
     \<and> length (Key rec) < 2 ^ 63 \<and> length (Value rec) < 2 ^ 63"

text \<open>
  The log of the recovery example: Put(a,1), Put(b,2), Delete(a), Put(a,3), the keys and
  values as ASCII bytes.
\<close>

definition example_records :: "Record list" where
  "example_records =
     [\<lparr>Type = TypePut, Key = [97], Value = [49]\<rparr>,
      \<lparr>Type = TypePut, Key = [98], Value = [50]\<rparr>,
      \<lparr>Type = TypeDelete, Key = [97], Value = []\<rparr>,
      \<lparr>Type = TypePut, Key = [97], Value = [51]\<rparr>]"

text \<open>
  The records of the reopening example: a log that holds Put(ab,cd) is opened again and
  Delete(a) is written.
\<close>

definition old_record :: Record where
  "old_record = \<lparr>Type = TypePut, Key = [97, 98], Value = [99, 100]\<rparr>"

definition new_record :: Record where
  "new_record = \<lparr>Type = TypeDelete, Key = [97], Value = []\<rparr>"

section \<open>The skip list\<close>

definition maxLevel :: nat where "maxLevel = 32"

text \<open>
  A \<open>*Node\<close> is an address or \<open>nil\<close> (\<open>None\<close>); the heap maps every address to the
  node there, and \<open>alloc\<close> is the next address that \<open>&Node{...}\<close> returns. A key or
  value is an \<open>interface{}\<close>: \<open>None\<close> is \<open>nil\<close> (the head's), \<open>Some\<close> a value of the
  key type of the list. A comparator is a function on that key type; handed \<open>nil\<close>,
  the repository's comparators panic on their type assertion.
\<close>

record ('k, 'v) Node =
  key :: "'k option"
  val :: "'v option"
  forward :: "nat option list"

text \<open>
  \<open>rnd\<close> is the random source \<open>r\<close> of the list: \<open>rnd n\<close> tells whether the \<open>n\<close>-th call of
  \<open>sl.r.Float64()\<close> returns less than \<open>probability\<close>; \<open>rpos\<close> counts the calls made.
  \<open>level\<close> is at least 1 from \<open>NewSkipList\<close> on, so a natural number.
\<close>

record ('k, 'v) SkipList =
  heap :: "nat \<Rightarrow> ('k, 'v) Node"
  alloc :: nat
  head :: nat
  comparator :: "'k \<Rightarrow> 'k \<Rightarrow> int"
  level :: nat
  size_sl :: int
  rnd :: "nat \<Rightarrow> bool"
  rpos :: nat

definition IntComparator :: "int \<Rightarrow> int \<Rightarrow> int" where
  "IntComparator aInt bInt = (if aInt < bInt then -1 else if aInt > bInt then 1 else 0)"

fun BytesComparator_loop :: "byte list \<Rightarrow> byte list \<Rightarrow> int option" where
  "BytesComparator_loop (a # as) (b # bs) =
     (if a < b then Some (-1) else if a > b then Some 1 else BytesComparator_loop as bs)"
| "BytesComparator_loop _ _ = None"

definition BytesComparator :: "byte list \<Rightarrow> byte list \<Rightarrow> int" where
  "BytesComparator aBytes bBytes =
     (case BytesComparator_loop aBytes bBytes of
        Some c \<Rightarrow> c
      | None \<Rightarrow>
          if length aBytes < length bBytes then -1
          else if length aBytes > length bBytes then 1
          else 0)"

definition NewSkipList ::
  "('k \<Rightarrow> 'k \<Rightarrow> int) option \<Rightarrow> (nat \<Rightarrow> bool) \<Rightarrow> ('k, 'v) SkipList result" where
  "NewSkipList cmp coins =
     (case cmp of
        None \<Rightarrow> Panic ''Comparator can not be nil''
      | Some c \<Rightarrow>
          Ok \<lparr>heap = (\<lambda>_. \<lparr>key = None, val = None, forward = []\<rparr>)
                      (0 := \<lparr>key = None, val = None, forward = replicate maxLevel None\<rparr>),
              alloc = 1, head = 0, comparator = c, level = 1, size_sl = 0,
              rnd = coins, rpos = 0\<rparr>)"

function randomLevel_loop :: "(nat \<Rightarrow> bool) \<Rightarrow> nat \<Rightarrow> nat \<Rightarrow> nat \<times> nat" where
  "randomLevel_loop coins p lvl =
     (if lvl < maxLevel then
        (if coins p then randomLevel_loop coins (Suc p) (Suc lvl) else (lvl, Suc p))
      else (lvl, p))"
  by pat_completeness auto
termination
  by (relation "measure (\<lambda>(coins, p, lvl). maxLevel - lvl)") auto

definition randomLevel :: "(nat \<Rightarrow> bool) \<Rightarrow> nat \<Rightarrow> nat \<times> nat" where
  "randomLevel coins p = randomLevel_loop coins p 1"

text \<open>\<open>x.forward[i]\<close>: an index past the slice panics.\<close>

definition fwd :: "(nat \<Rightarrow> ('k, 'v) Node) \<Rightarrow> nat \<Rightarrow> nat \<Rightarrow> nat option result" where
  "fwd h x i =
     (if i < length (forward (h x)) then Ok (forward (h x) ! i)
      else Panic ''index out of range'')"

text \<open>
  The inner loop of every descent,
  \<^verbatim>\<open>for x.forward[i] != nil && Compare(x.forward[i].key, key) < 0 { x = x.forward[i] }\<close>.
  It runs as long as the links lead on, so its result is an option: \<open>None\<close> is a walk
  that never ends.
\<close>

partial_function (option) walk ::
  "('k \<Rightarrow> 'k \<Rightarrow> int) \<Rightarrow> (nat \<Rightarrow> ('k, 'v) Node) \<Rightarrow> nat \<Rightarrow> 'k \<Rightarrow> nat \<Rightarrow> nat result option" where
  "walk cmp h i k x =
     (if length (forward (h x)) \<le> i then Some (Panic ''index out of range'')
      else
        (case forward (h x) ! i of
           None \<Rightarrow> Some (Ok x)
         | Some y \<Rightarrow>
             (case key (h y) of
                None \<Rightarrow> Some (Panic ''invalid type'')
              | Some ky \<Rightarrow> if cmp ky k < 0 then walk cmp h i k y else Some (Ok x))))"

declare walk.simps [code]

text \<open>
  The descent of \<open>Find\<close> and \<open>Seek\<close>, \<open>for i := sl.level - 1; i >= 0; i--\<close>; the
  counter is \<open>i + 1\<close>.
\<close>

fun search ::
  "('k \<Rightarrow> 'k \<Rightarrow> int) \<Rightarrow> (nat \<Rightarrow> ('k, 'v) Node) \<Rightarrow> 'k \<Rightarrow> nat \<Rightarrow> nat \<Rightarrow> nat result option" where
  "search cmp h k 0 x = Some (Ok x)"
| "search cmp h k (Suc i) x =
     (case walk cmp h i k x of
        None \<Rightarrow> None
      | Some (Ok x') \<Rightarrow> search cmp h k i x'
      | Some (Err e) \<Rightarrow> Some (Err e)
      | Some (Panic s) \<Rightarrow> Some (Panic s))"

text \<open>The descent of \<open>Insert\<close> and \<open>Delete\<close>, which also records \<open>update[i] = x\<close>.\<close>

fun descend ::
  "('k \<Rightarrow> 'k \<Rightarrow> int) \<Rightarrow> (nat \<Rightarrow> ('k, 'v) Node) \<Rightarrow> 'k \<Rightarrow> nat \<Rightarrow> nat \<Rightarrow> nat option list
     \<Rightarrow> (nat \<times> nat option list) result option" where
  "descend cmp h k 0 x update = Some (Ok (x, update))"
| "descend cmp h k (Suc i) x update =
     (case walk cmp h i k x of
        None \<Rightarrow> None
      | Some (Ok x') \<Rightarrow>
          if length update \<le> i then Some (Panic ''index out of range'')
          else descend cmp h k i x' (update[i := Some x'])
      | Some (Err e) \<Rightarrow> Some (Err e)
      | Some (Panic s) \<Rightarrow> Some (Panic s))"

text \<open>
  \<open>x = x.forward[0]\<close> and the test \<open>x != nil && Compare(x.key, key) == 0\<close> that
  follows each descent: the node that holds the key, if the successor does.
\<close>

definition successor_match ::
  "('k \<Rightarrow> 'k \<Rightarrow> int) \<Rightarrow> (nat \<Rightarrow> ('k, 'v) Node) \<Rightarrow> 'k \<Rightarrow> nat \<Rightarrow> nat option result" where
  "successor_match cmp h k x =
     (case fwd h x 0 of
        Ok None \<Rightarrow> Ok None
      | Ok (Some y) \<Rightarrow>
          (case key (h y) of
             None \<Rightarrow> Panic ''invalid type''
           | Some ky \<Rightarrow> if cmp ky k = 0 then Ok (Some y) else Ok None)
      | Err e \<Rightarrow> Err e
      | Panic s \<Rightarrow> Panic s)"

definition Find :: "'k \<Rightarrow> ('k, 'v) SkipList \<Rightarrow> ('v option \<times> bool) result option" where
  "Find k sl =
     (case search (comparator sl) (heap sl) k (level sl) (head sl) of
        None \<Rightarrow> None
      | Some (Ok x) \<Rightarrow>
          (case successor_match (comparator sl) (heap sl) k x of
             Ok (Some y) \<Rightarrow> Some (Ok (val (heap sl y), True))
           | Ok None \<Rightarrow> Some (Ok (None, False))
           | Err e \<Rightarrow> Some (Err e)
           | Panic s \<Rightarrow> Some (Panic s))
      | Some (Err e) \<Rightarrow> Some (Err e)
      | Some (Panic s) \<Rightarrow> Some (Panic s))"

text \<open>\<open>for i := sl.level; i < level; i++ { update[i] = sl.head }\<close>\<close>

function raise_update :: "nat \<Rightarrow> nat option list \<Rightarrow> nat \<Rightarrow> nat \<Rightarrow> nat option list result" where
  "raise_update headp update i lvl =
     (if i < lvl then
        (if length update \<le> i then Panic ''index out of range''
         else raise_update headp (update[i := Some headp]) (Suc i) lvl)
      else Ok update)"
  by pat_completeness auto
termination
  by (relation "measure (\<lambda>(headp, update, i, lvl). lvl - i)") auto

text \<open>
  \<^verbatim>\<open>for i := 0; i < level; i++ {
    newNode.forward[i] = update[i].forward[i]; update[i].forward[i] = newNode }\<close>
\<close>

function splice ::
  "(nat \<Rightarrow> ('k, 'v) Node) \<Rightarrow> nat \<Rightarrow> nat option list \<Rightarrow> nat \<Rightarrow> nat
     \<Rightarrow> (nat \<Rightarrow> ('k, 'v) Node) result" where
  "splice h newNode update i lvl =
     (if i < lvl then
        (if length update \<le> i then Panic ''index out of range''
         else
           (case update ! i of
              None \<Rightarrow> Panic ''nil pointer dereference''
            | Some u \<Rightarrow>
                if length (forward (h u)) \<le> i then Panic ''index out of range''
                else if length (forward (h newNode)) \<le> i then Panic ''index out of range''
                else
                  (let h1 = h(newNode := (h newNode)
                              \<lparr>forward := (forward (h newNode))[i := forward (h u) ! i]\<rparr>);
                       h2 = h1(u := (h1 u)\<lparr>forward := (forward (h1 u))[i := Some newNode]\<rparr>)
                   in splice h2 newNode update (Suc i) lvl)))
      else Ok h)"
  by pat_completeness auto
termination
  by (relation "measure (\<lambda>(h, newNode, update, i, lvl). lvl - i)") auto

definition Insert :: "'k \<Rightarrow> 'v \<Rightarrow> ('k, 'v) SkipList \<Rightarrow> ('k, 'v) SkipList result option" where
  "Insert k v sl =
     (case descend (comparator sl) (heap sl) k (level sl) (head sl) (replicate maxLevel None) of
        None \<Rightarrow> None
      | Some (Ok (x, update)) \<Rightarrow>
          (case successor_match (comparator sl) (heap sl) k x of
             Ok (Some y) \<Rightarrow>
               Some (Ok (sl\<lparr>heap := (heap sl)(y := (heap sl y)\<lparr>val := Some v\<rparr>)\<rparr>))
           | Ok None \<Rightarrow>
               (case randomLevel (rnd sl) (rpos sl) of
                  (lvl, p) \<Rightarrow>
                    (case (if lvl > level sl
                           then raise_update (head sl) update (level sl) lvl
                           else Ok update) of
                       Ok update' \<Rightarrow>
                         (let newNode = alloc sl;
                              h1 = (heap sl)(newNode :=
                                     \<lparr>key = Some k, val = Some v,
                                      forward = replicate lvl None\<rparr>)
                          in case splice h1 newNode update' 0 lvl of
                               Ok h2 \<Rightarrow>
                                 Some (Ok (sl\<lparr>heap := h2, alloc := Suc newNode,
                                             level := (if lvl > level sl then lvl else level sl),
                                             size_sl := size_sl sl + 1, rpos := p\<rparr>))
                             | Err e \<Rightarrow> Some (Err e)
                             | Panic s \<Rightarrow> Some (Panic s))
                     | Err e \<Rightarrow> Some (Err e)
                     | Panic s \<Rightarrow> Some (Panic s)))
           | Err e \<Rightarrow> Some (Err e)
           | Panic s \<Rightarrow> Some (Panic s))
      | Some (Err e) \<Rightarrow> Some (Err e)
      | Some (Panic s) \<Rightarrow> Some (Panic s))"

text \<open>
  \<^verbatim>\<open>for i := 0; i < sl.level; i++ {
    if update[i].forward[i] != x { break }; update[i].forward[i] = x.forward[i] }\<close>
\<close>

function unlink ::
  "(nat \<Rightarrow> ('k, 'v) Node) \<Rightarrow> nat \<Rightarrow> nat option list \<Rightarrow> nat \<Rightarrow> nat
     \<Rightarrow> (nat \<Rightarrow> ('k, 'v) Node) result" where
  "unlink h x update i lvl =
     (if i < lvl then
        (if length update \<le> i then Panic ''index out of range''
         else
           (case update ! i of
              None \<Rightarrow> Panic ''nil pointer dereference''
            | Some u \<Rightarrow>
                if length (forward (h u)) \<le> i then Panic ''index out of range''
                else if forward (h u) ! i \<noteq> Some x then Ok h
                else if length (forward (h x)) \<le> i then Panic ''index out of range''
                else unlink (h(u := (h u)\<lparr>forward := (forward (h u))[i := forward (h x) ! i]\<rparr>))
                       x update (Suc i) lvl))
      else Ok h)"
  by pat_completeness auto
termination
  by (relation "measure (\<lambda>(h, x, update, i, lvl). lvl - i)") auto

text \<open>\<^verbatim>\<open>for sl.level > 1 && sl.head.forward[sl.level-1] == nil { sl.level-- }\<close>\<close>

function shrink :: "(nat \<Rightarrow> ('k, 'v) Node) \<Rightarrow> nat \<Rightarrow> nat \<Rightarrow> nat result" where
  "shrink h headp lvl =
     (if 1 < lvl then
        (if length (forward (h headp)) \<le> lvl - 1 then Panic ''index out of range''
         else if forward (h headp) ! (lvl - 1) = None then shrink h headp (lvl - 1)
         else Ok lvl)
      else Ok lvl)"
  by pat_completeness auto
termination
  by (relation "measure (\<lambda>(h, headp, lvl). lvl)") auto

definition Delete :: "'k \<Rightarrow> ('k, 'v) SkipList \<Rightarrow> (bool \<times> ('k, 'v) SkipList) result option" where
  "Delete k sl =
     (case descend (comparator sl) (heap sl) k (level sl) (head sl) (replicate maxLevel None) of
        None \<Rightarrow> None
      | Some (Ok (x0, update)) \<Rightarrow>
          (case successor_match (comparator sl) (heap sl) k x0 of
             Ok None \<Rightarrow> Some (Ok (False, sl))
           | Ok (Some x) \<Rightarrow>
               (case unlink (heap sl) x update 0 (level sl) of
                  Ok h1 \<Rightarrow>
                    (case shrink h1 (head sl) (level sl) of
                       Ok lvl \<Rightarrow>
                         Some (Ok (True, sl\<lparr>heap := h1, level := lvl,
                                              size_sl := size_sl sl - 1\<rparr>))
                     | Err e \<Rightarrow> Some (Err e)
                     | Panic s \<Rightarrow> Some (Panic s))
                | Err e \<Rightarrow> Some (Err e)
                | Panic s \<Rightarrow> Some (Panic s))
           | Err e \<Rightarrow> Some (Err e)
           | Panic s \<Rightarrow> Some (Panic s))
      | Some (Err e) \<Rightarrow> Some (Err e)
      | Some (Panic s) \<Rightarrow> Some (Panic s))"

definition Size :: "('k, 'v) SkipList \<Rightarrow> int" where
  "Size sl = size_sl sl"

text \<open>
  The iterator of the skip list: its \<open>list\<close> is the skip list the operations are given,
  \<open>current\<close> the node it stands on.
\<close>

record SLIterator =
  current :: "nat option"

definition NewIterator_sl :: "('k, 'v) SkipList \<Rightarrow> SLIterator result" where
  "NewIterator_sl sl =
     (case fwd (heap sl) (head sl) 0 of
        Ok c \<Rightarrow> Ok \<lparr>current = c\<rparr>
      | Err e \<Rightarrow> Err e
      | Panic s \<Rightarrow> Panic s)"

definition Valid :: "SLIterator \<Rightarrow> bool" where
  "Valid iter = (current iter \<noteq> None)"

definition Key_it :: "('k, 'v) SkipList \<Rightarrow> SLIterator \<Rightarrow> 'k option result" where
  "Key_it sl iter =
     (case current iter of
        None \<Rightarrow> Panic ''Invalid iterator''
      | Some c \<Rightarrow> Ok (key (heap sl c)))"

definition Value_it :: "('k, 'v) SkipList \<Rightarrow> SLIterator \<Rightarrow> 'v option result" where
  "Value_it sl iter =
     (case current iter of
        None \<Rightarrow> Panic ''Invalid iterator''
      | Some c \<Rightarrow> Ok (val (heap sl c)))"

definition Next_it :: "('k, 'v) SkipList \<Rightarrow> SLIterator \<Rightarrow> SLIterator result" where
  "Next_it sl iter =
     (case current iter of
        None \<Rightarrow> Panic ''Invalid iterator''
      | Some c \<Rightarrow>
          (case fwd (heap sl) c 0 of
             Ok n \<Rightarrow> Ok \<lparr>current = n\<rparr>
           | Err e \<Rightarrow> Err e
           | Panic s \<Rightarrow> Panic s))"

definition Seek :: "('k, 'v) SkipList \<Rightarrow> 'k \<Rightarrow> SLIterator \<Rightarrow> SLIterator result option" where
  "Seek sl k iter =
     (case search (comparator sl) (heap sl) k (level sl) (head sl) of
        None \<Rightarrow> None
      | Some (Ok x) \<Rightarrow>
          (case fwd (heap sl) x 0 of
             Ok n \<Rightarrow> Some (Ok \<lparr>current = n\<rparr>)
           | Err e \<Rightarrow> Some (Err e)
           | Panic s \<Rightarrow> Some (Panic s))
      | Some (Err e) \<Rightarrow> Some (Err e)
      | Some (Panic s) \<Rightarrow> Some (Panic s))"

text \<open>
  The full ascending iteration, as \<open>main\<close> runs it:
  \<^verbatim>\<open>for iter.Valid() { ... iter.Key(), iter.Value() ...; iter.Next() }\<close>;
  the result is the list of the keys and values it printed.
\<close>

partial_function (option) iterate ::
  "('k, 'v) SkipList \<Rightarrow> SLIterator \<Rightarrow> ('k option \<times> 'v option) list
     \<Rightarrow> ('k option \<times> 'v option) list result option" where
  "iterate sl iter acc =
     (if Valid iter then
        (case Key_it sl iter of
           Ok k \<Rightarrow>
             (case Value_it sl iter of
                Ok v \<Rightarrow>
                  (case Next_it sl iter of
                     Ok iter' \<Rightarrow> iterate sl iter' (acc @ [(k, v)])
                   | Err e \<Rightarrow> Some (Err e)
                   | Panic s \<Rightarrow> Some (Panic s))
              | Err e \<Rightarrow> Some (Err e)
              | Panic s \<Rightarrow> Some (Panic s))
         | Err e \<Rightarrow> Some (Err e)
         | Panic s \<Rightarrow> Some (Panic s))
      else Some (Ok acc))"

declare iterate.simps [code]

definition entries :: "('k, 'v) SkipList \<Rightarrow> ('k option \<times> 'v option) list result option" where
  "entries sl =
     (case NewIterator_sl sl of
        Ok iter \<Rightarrow> iterate sl iter []
      | Err e \<Rightarrow> Some (Err e)
      | Panic s \<Rightarrow> Some (Panic s))"

text \<open>
  A program on one skip list: a sequence of \<open>Insert\<close> and \<open>Delete\<close> calls, each run
  on the list the one before left.
\<close>

datatype ('k, 'v) operation = OpInsert 'k 'v | OpDelete 'k

fun run :: "('k, 'v) operation list \<Rightarrow> ('k, 'v) SkipList \<Rightarrow> ('k, 'v) SkipList result option" where
  "run [] sl = Some (Ok sl)"
| "run (OpInsert k v # ops) sl =
     (case Insert k v sl of
        None \<Rightarrow> None
      | Some (Ok sl') \<Rightarrow> run ops sl'
      | Some (Err e) \<Rightarrow> Some (Err e)
      | Some (Panic s) \<Rightarrow> Some (Panic s))"
| "run (OpDelete k # ops) sl =
     (case Delete k sl of
        None \<Rightarrow> None
      | Some (Ok (found, sl')) \<Rightarrow> run ops sl'
      | Some (Err e) \<Rightarrow> Some (Err e)
      | Some (Panic s) \<Rightarrow> Some (Panic s))"

text \<open>
  What the comparator has to be for the list to work: a strict total order, given as the
  sign of the result.
\<close>

definition total_order :: "('k \<Rightarrow> 'k \<Rightarrow> int) \<Rightarrow> bool" where
  "total_order c \<longleftrightarrow>
     (\<forall>a. c a a = 0)
     \<and> (\<forall>a b. c a b = 0 \<longrightarrow> a = b)
     \<and> (\<forall>a b. c a b < 0 \<longleftrightarrow> 0 < c b a)
     \<and> (\<forall>a b d. c a b < 0 \<and> c b d < 0 \<longrightarrow> c a d < 0)"

text \<open>
  \<open>chain h i p as\<close>: following the links of level \<open>i\<close> from the pointer \<open>p\<close> visits
  exactly the nodes \<open>as\<close>, in this order, and then reaches \<open>nil\<close>. \<open>links h i x as\<close>:
  the nodes linked after the node \<open>x\<close> at level \<open>i\<close> are \<open>as\<close>.
\<close>

primrec chain :: "(nat \<Rightarrow> ('k, 'v) Node) \<Rightarrow> nat \<Rightarrow> nat option \<Rightarrow> nat list \<Rightarrow> bool" where
  "chain h i p [] = (p = None)"
| "chain h i p (a # as) =
     (p = Some a \<and> i < length (forward (h a)) \<and> chain h i (forward (h a) ! i) as)"

definition links :: "(nat \<Rightarrow> ('k, 'v) Node) \<Rightarrow> nat \<Rightarrow> nat \<Rightarrow> nat list \<Rightarrow> bool" where
  "links h i x as = (i < length (forward (h x)) \<and> chain h i (forward (h x) ! i) as)"

text \<open>The order of two keys as the comparator sees it; a \<open>nil\<close> key is not ordered.\<close>

definition key_lt :: "('k \<Rightarrow> 'k \<Rightarrow> int) \<Rightarrow> 'k option \<Rightarrow> 'k option \<Rightarrow> bool" where
  "key_lt c a b = (case a of None \<Rightarrow> False
                   | Some ka \<Rightarrow> (case b of None \<Rightarrow> False | Some kb \<Rightarrow> c ka kb < 0))"

definition height :: "(nat \<Rightarrow> ('k, 'v) Node) \<Rightarrow> nat \<Rightarrow> nat" where
  "height h a = length (forward (h a))"

text \<open>
  The invariant of a skip list, over the list \<open>as\<close> of its nodes in the order of level
  0: the nodes are allocated and are not the head, the keys grow strictly, every node has
  between 1 and \<open>level\<close> links, and the nodes linked at level \<open>i\<close> are those of \<open>as\<close>
  with more than \<open>i\<close> links, in the same order.
\<close>

definition sl_inv :: "('k, 'v) SkipList \<Rightarrow> nat list \<Rightarrow> bool" where
  "sl_inv sl as \<longleftrightarrow>
     total_order (comparator sl)
     \<and> head sl < alloc sl \<and> head sl \<notin> set as \<and> list_all (\<lambda>a. a < alloc sl) as
     \<and> height (heap sl) (head sl) = maxLevel
     \<and> 1 \<le> level sl \<and> level sl \<le> maxLevel
     \<and> list_all (\<lambda>a. 1 \<le> height (heap sl) a \<and> height (heap sl) a \<le> level sl
                      \<and> key (heap sl a) \<noteq> None) as
     \<and> sorted_wrt (\<lambda>a b. key_lt (comparator sl) (key (heap sl a)) (key (heap sl b))) as
     \<and> list_all (\<lambda>i. links (heap sl) i (head sl) (filter (\<lambda>a. i < height (heap sl) a) as))
          [0..<maxLevel]
     \<and> size_sl sl = int (length as)"

section \<open>The MemTable\<close>

record MemTable =
  skipList :: "(byte list, byte list) SkipList"
  log :: WAL

text \<open>
  The replay loop of \<open>New\<close>: it ends at the first error of \<open>Next\<close>, whatever the
  error is. An iterator that returns a record has moved on, which bounds the loop.
\<close>

function replay ::
  "fs \<Rightarrow> Iterator \<Rightarrow> (byte list, byte list) SkipList
     \<Rightarrow> (byte list, byte list) SkipList result option" where
  "replay f iter list =
     (case Next f iter of
        (Ok record, iter') \<Rightarrow>
          if Type record = TypePut then
            (case Insert (Key record) (Value record) list of
               None \<Rightarrow> None
             | Some (Ok list') \<Rightarrow> replay f iter' list'
             | Some (Err e) \<Rightarrow> Some (Err e)
             | Some (Panic s) \<Rightarrow> Some (Panic s))
          else if Type record = TypeDelete then
            (case Delete (Key record) list of
               None \<Rightarrow> None
             | Some (Ok (found, list')) \<Rightarrow> replay f iter' list'
             | Some (Err e) \<Rightarrow> Some (Err e)
             | Some (Panic s) \<Rightarrow> Some (Panic s))
          else replay f iter' list
      | (Err e, iter') \<Rightarrow> Some (Ok list)
      | (Panic s, iter') \<Rightarrow> Some (Panic s))"
  by pat_completeness auto

termination
proof -
  have adv: "fileEnd y - offset y < fileEnd iter - offset iter"
    if "(Ok x1, y) = Next f iter" for f iter x1 y
    using that [symmetric]
    by (auto simp: Next_def Let_def split: if_splits list.splits sum.splits prod.splits)
  show ?thesis
    by (relation "measure (\<lambda>(f, iter, list). fileEnd iter - offset iter)")
       (auto intro: adv)
qed

text \<open>
  \<open>New\<close>. The environment gives the outcomes of \<open>OpenFile\<close> and \<open>Stat\<close> in
  \<open>wal.Open\<close>, of \<open>os.Open\<close> in \<open>NewIterator\<close>, and the random source a skip list
  would get.
\<close>

definition New ::
  "error option \<Rightarrow> error option \<Rightarrow> error option \<Rightarrow> (nat \<Rightarrow> bool) \<Rightarrow> string \<Rightarrow> bool \<Rightarrow> fs
     \<Rightarrow> MemTable result option \<times> fs" where
  "New open_err stat_err iter_err coins walPath syncWrites f =
     (case Open open_err stat_err walPath syncWrites f of
        (Err e, f') \<Rightarrow> (Some (Err e), f')
      | (Panic s, f') \<Rightarrow> (Some (Panic s), f')
      | (Ok lg, f') \<Rightarrow>
          (case NewSkipList None coins of
             Panic s \<Rightarrow> (Some (Panic s), f')
           | Err e \<Rightarrow> (Some (Err e), f')
           | Ok list \<Rightarrow>
               (case NewIterator iter_err lg of
                  Err e \<Rightarrow> (Some (Err e), f')
                | Panic s \<Rightarrow> (Some (Panic s), f')
                | Ok iter \<Rightarrow>
                    (case replay f' iter list of
                       None \<Rightarrow> (None, f')
                     | Some (Ok list') \<Rightarrow> (Some (Ok \<lparr>skipList = list', log = lg\<rparr>), f')
                     | Some (Err e) \<Rightarrow> (Some (Err e), f')
                     | Some (Panic s) \<Rightarrow> (Some (Panic s), f')))))"

text \<open>
  \<open>Put\<close> and \<open>Delete\<close> return an error: \<open>Ok ()\<close> is \<open>nil\<close>. The environment gives
  the outcomes of the write and of the sync.
\<close>

definition Put ::
  "write_outcome \<Rightarrow> error option \<Rightarrow> byte list \<Rightarrow> byte list \<Rightarrow> fs \<times> MemTable
     \<Rightarrow> unit result option \<times> fs \<times> MemTable" where
  "Put wo sync_err k v st =
     (let f = fst st; m = snd st in
      case Write wo sync_err \<lparr>Type = TypePut, Key = k, Value = v\<rparr> (f, log m) of
        (Some err, f', lg) \<Rightarrow> (Some (Err err), f', m\<lparr>log := lg\<rparr>)
      | (None, f', lg) \<Rightarrow>
          (case Insert k v (skipList m) of
             None \<Rightarrow> (None, f', m\<lparr>log := lg\<rparr>)
           | Some (Ok list') \<Rightarrow> (Some (Ok ()), f', \<lparr>skipList = list', log = lg\<rparr>)
           | Some (Err e) \<Rightarrow> (Some (Err e), f', m\<lparr>log := lg\<rparr>)
           | Some (Panic s) \<Rightarrow> (Some (Panic s), f', m\<lparr>log := lg\<rparr>)))"

definition Delete_mt ::
  "write_outcome \<Rightarrow> error option \<Rightarrow> byte list \<Rightarrow> fs \<times> MemTable
     \<Rightarrow> unit result option \<times> fs \<times> MemTable" where
  "Delete_mt wo sync_err k st =
     (let f = fst st; m = snd st in
      case Write wo sync_err \<lparr>Type = TypeDelete, Key = k, Value = []\<rparr> (f, log m) of
        (Some err, f', lg) \<Rightarrow> (Some (Err err), f', m\<lparr>log := lg\<rparr>)
      | (None, f', lg) \<Rightarrow>
          (case Delete k (skipList m) of
             None \<Rightarrow> (None, f', m\<lparr>log := lg\<rparr>)
           | Some (Ok (found, list')) \<Rightarrow> (Some (Ok ()), f', \<lparr>skipList = list', log = lg\<rparr>)
           | Some (Err e) \<Rightarrow> (Some (Err e), f', m\<lparr>log := lg\<rparr>)
           | Some (Panic s) \<Rightarrow> (Some (Panic s), f', m\<lparr>log := lg\<rparr>)))"

definition Close_mt :: "error option \<Rightarrow> MemTable \<Rightarrow> error option" where
  "Close_mt close_err m = Close close_err (log m)"

text \<open>
  The bytes of a record that its checksum covers, named for the proofs below.
\<close>

definition record_body :: "Record \<Rightarrow> byte list" where
  "record_body r = [Type r] @ encodeVarint (word_of_nat (length (Key r)))
             @ encodeVarint (word_of_nat (length (Value r))) @ Key r @ Value r"

section \<open>Properties of the write-ahead log\<close>

lemma x7f_mask: "(0x7f :: 'a::len word) = mask 7"
  by (simp add: mask_eq_exp_minus_1)

lemma split_low7: "(v AND 0x7f) OR push_bit 7 (drop_bit 7 v) = (v :: 64 word)"
  unfolding x7f_mask
  apply (rule bit_word_eqI)
  subgoal for n
    by (cases "n < 7") (auto simp: bit_simps)
  done

lemma ucast_low_byte:
  assumes "\<not> 0x80 \<le> (v :: 64 word)"
  shows "ucast (ucast v :: byte) = v"
proof -
  from assms have lt: "unat v < 128" by (simp add: not_le word_le_nat_alt)
  then have "take_bit 8 (unat v) = unat v" by (simp add: take_bit_nat_eq_self)
  then have "unat (ucast (ucast v :: byte) :: 64 word) = unat v"
    by (simp add: unsigned_ucast_eq unsigned_take_bit_eq take_bit_nat_eq_self)
  then show ?thesis by (simp only: word_unat_eq_iff)
qed

lemma low_byte_small:
  assumes "\<not> 0x80 \<le> (v :: 64 word)"
  shows "(ucast v :: byte) < 0x80" and "unat (ucast v :: byte) = unat v"
proof -
  from assms have lt: "unat v < 128" by (simp add: not_le word_le_nat_alt)
  from lt show u: "unat (ucast v :: byte) = unat v"
    by (simp add: unsigned_ucast_eq take_bit_nat_eq_self)
  with lt show "(ucast v :: byte) < 0x80" by (simp add: word_less_nat_alt)
qed

lemma cont_byte:
  "\<not> (ucast (v :: 64 word) OR 0x80 :: byte) < 0x80"
  "ucast ((ucast v OR 0x80 :: byte) AND 0x7f) = v AND 0x7f"
proof -
  have "(0x80 :: int) = 2 ^ 7" by simp
  then have b: "\<And>n. bit (0x80 :: int) n \<longleftrightarrow> n = 7"
    by (simp only: bit_exp_iff) auto
  have "(0x80 :: byte) \<le> ucast v OR 0x80"
    using le_word_or2 [of "0x80 :: byte" "ucast v"] by (simp add: or.commute)
  then show "\<not> (ucast (v :: 64 word) OR 0x80 :: byte) < 0x80" by simp
  show "ucast ((ucast v OR 0x80 :: byte) AND 0x7f) = v AND 0x7f"
    unfolding x7f_mask
    by (rule bit_word_eqI) (auto simp: bit_simps b)
qed

lemma readUvarint_loop_PutUvarint:
  "i \<le> 9 \<Longrightarrow> unat v < 2 ^ (64 - 7 * i) \<Longrightarrow>
   readUvarint_loop x s i (PutUvarint v @ rest)
     = Inr (x OR push_bit s v, i + length (PutUvarint v), rest)"
proof (induction v arbitrary: x s i rule: PutUvarint.induct)
  case (1 v)
  show ?case
  proof (cases "0x80 \<le> v")
    case True
    then have ge: "128 \<le> unat v" by (simp add: word_le_nat_alt)
    have i8: "i \<le> 8"
    proof (rule ccontr)
      assume "\<not> i \<le> 8"
      with "1.prems" have "i = 9" by simp
      with "1.prems" ge show False by simp
    qed
    then have e: "64 - 7 * i = 7 + (64 - 7 * Suc i)" by simp
    have "unat v < 2 ^ 7 * 2 ^ (64 - 7 * Suc i)"
      using "1.prems"(2) unfolding e power_add .
    then have "unat v div 2 ^ 7 < 2 ^ (64 - 7 * Suc i)"
      by (simp add: less_mult_imp_div_less mult.commute)
    then have small: "unat (drop_bit 7 v) < 2 ^ (64 - 7 * Suc i)"
      by (simp add: drop_bit_eq_div unat_div)
    have IH: "readUvarint_loop (x OR push_bit s (v AND 0x7f)) (s + 7) (Suc i)
                 (PutUvarint (drop_bit 7 v) @ rest)
              = Inr ((x OR push_bit s (v AND 0x7f)) OR push_bit (s + 7) (drop_bit 7 v),
                     Suc i + length (PutUvarint (drop_bit 7 v)), rest)"
      using "1.IH" [OF True _ small] i8 by simp
    have "(x OR push_bit s (v AND 0x7f)) OR push_bit (s + 7) (drop_bit 7 v)
          = x OR push_bit s ((v AND 0x7f) OR push_bit 7 (drop_bit 7 v))"
      by (simp add: push_bit_add or.assoc push_bit_or flip: push_bit_push_bit)
    also have "\<dots> = x OR push_bit s v" by (simp only: split_low7)
    finally have r: "(x OR push_bit s (v AND 0x7f)) OR push_bit (s + 7) (drop_bit 7 v)
          = x OR push_bit s v" .
    have P: "PutUvarint v = (ucast v OR 0x80) # PutUvarint (drop_bit 7 v)"
      using True by (subst PutUvarint.simps) simp
    show ?thesis
      unfolding P
      apply (simp only: append_Cons readUvarint_loop.simps cont_byte if_False)
      apply (simp only: IH r)
      apply simp
      done
  next
    case False
    have P: "PutUvarint v = [ucast v]"
      using False by (subst PutUvarint.simps) simp
    have "i = 9 \<Longrightarrow> \<not> (ucast v :: byte) > 1"
    proof -
      assume "i = 9"
      with "1.prems" have "unat v < 2" by simp
      then have "unat (ucast v :: byte) \<le> 1" using low_byte_small(2) [OF False] by simp
      then show ?thesis by (simp add: word_less_nat_alt not_less)
    qed
    with "1.prems"(1) have guard: "\<not> (i > 9 \<or> i = 9 \<and> (ucast v :: byte) > 1)" by auto
    show ?thesis
      unfolding P
      using guard low_byte_small(1) [OF False] ucast_low_byte [OF False]
      by simp
  qed
qed

lemma Uint32_PutUint32: "Uint32 (PutUint32 c @ rest) = c"
  unfolding PutUint32_def
  apply simp
  apply (rule bit_word_eqI)
  subgoal for n
    by (cases "n < 8"; cases "n < 16"; cases "n < 24") (auto simp: bit_simps)
  done

lemma length_PutUvarint: "1 \<le> length (PutUvarint v)"
  by (subst PutUvarint.simps) simp

lemma readUvarint_encodeVarint:
  "readUvarint (encodeVarint v @ rest) = Inr (v, length (encodeVarint v), rest)"
  unfolding readUvarint_def encodeVarint_def
  using readUvarint_loop_PutUvarint [of 0 v 0 0 rest] unsigned_less [of v, where 'a = nat]
  by simp

lemma ReadFull_append: "ReadFull (length xs) (xs @ r) = Inr (xs, r)"
  by (cases xs) (simp_all add: ReadFull_def)

lemma length_PutUint32: "length (PutUint32 c) = 4"
  by (simp add: PutUint32_def)

lemma ReadFull_PutUint32: "ReadFull 4 (PutUint32 c @ r) = Inr (PutUint32 c, r)"
  using ReadFull_append [of "PutUint32 c" r] by (simp add: length_PutUint32)

lemma Uint32_PutUint32': "Uint32 (PutUint32 c) = c"
  using Uint32_PutUint32 [of c "[]"] by simp

lemma unat_word_of_nat_len:
  "n < 2 ^ 63 \<Longrightarrow> unat (word_of_nat n :: 64 word) = n"
  by (simp add: unat_of_nat take_bit_nat_eq_self)

lemma Write_buf_eq: "Write_buf r = record_body r @ PutUint32 (ChecksumIEEE (record_body r))"
  by (simp add: Write_buf_def record_body_def Let_def)

lemma length_Write_buf:
  "length (Write_buf r) = 1 + length (encodeVarint (word_of_nat (length (Key r))))
      + length (encodeVarint (word_of_nat (length (Value r))))
      + length (Key r) + length (Value r) + 4"
  by (simp add: Write_buf_eq record_body_def length_PutUint32)

lemma Next_Write_buf:
  assumes v: "valid_record r"
    and d: "drop (offset it) (contents f (file_it it)) = Write_buf r @ rest"
    and o: "offset it < fileEnd it"
  shows "Next f it = (Ok r, it\<lparr>offset := offset it + length (Write_buf r)\<rparr>)"
proof -
  let ?kl = "word_of_nat (length (Key r)) :: 64 word"
  let ?vl = "word_of_nat (length (Value r)) :: 64 word"
  let ?crc = "PutUint32 (ChecksumIEEE (record_body r))"
  from v have t: "\<not> (Type r \<noteq> TypePut \<and> Type r \<noteq> TypeDelete)"
    and uk: "unat ?kl = length (Key r)" and uv: "unat ?vl = length (Value r)"
    by (auto simp: valid_record_def unat_word_of_nat_len)
  from v have mk: "makeslice_ok ?kl" "makeslice_ok ?vl"
    by (simp_all add: makeslice_ok_def uk uv valid_record_def)
  have d1: "drop (offset it) (contents f (file_it it))
     = Type r # (encodeVarint ?kl @ (encodeVarint ?vl @ (Key r @ (Value r @ (?crc @ rest)))))"
    by (simp add: d Write_buf_eq record_body_def)
  have sz: "1 + length (encodeVarint ?kl) + length (encodeVarint ?vl) + length (Key r)
      + length (Value r) + 4 - 4 = length (record_body r)"
    by (simp add: record_body_def)
  have rf: "ReadFull (length (record_body r))
       (Type r # (encodeVarint ?kl @ (encodeVarint ?vl @ (Key r @ (Value r @ (?crc @ rest))))))
     = Inr (record_body r, ?crc @ rest)"
    using ReadFull_append [of "record_body r" "?crc @ rest"] by (simp add: record_body_def)
  have o': "\<not> fileEnd it \<le> offset it" using o by simp
  have "Next f it = (Ok \<lparr>Type = Type r, Key = Key r, Value = Value r\<rparr>,
      it\<lparr>offset := offset it + (1 + length (encodeVarint ?kl) + length (encodeVarint ?vl)
         + length (Key r) + length (Value r) + 4)\<rparr>)"
    unfolding Next_def
    by (simp only: o' if_False d1 list.case t readUvarint_encodeVarint sum.case prod.case
        mk not_True_eq_False uk uv ReadFull_append ReadFull_PutUint32 Let_def sz rf
        Uint32_PutUint32' simp_thms)
  then show ?thesis by (simp add: length_Write_buf)
qed


lemma WriteBatch_loop_concat:
  "WriteBatch_loop buf rs = buf @ concat (map Write_buf rs)"
proof (induction rs arbitrary: buf)
  case Nil
  show ?case by simp
next
  case (Cons r rs)
  show ?case
    by (simp add: Let_def Cons.IH Write_buf_def)
qed


lemma write_at_prefix:
  "buf \<noteq> [] \<Longrightarrow> \<exists>P. length P = pos \<and> write_at c pos buf = P @ buf @ drop (pos + length buf) c"
proof -
  assume "buf \<noteq> []"
  then have "write_at c pos buf
    = (take pos c @ replicate (pos - length c) 0) @ buf @ drop (pos + length buf) c"
    by (simp add: write_at_def)
  moreover have "length (take pos c @ replicate (pos - length c) 0) = pos"
    by (simp add: min_def)
  ultimately show ?thesis by blast
qed

lemma write_at_write_at:
  "write_at (write_at c pos a) (pos + length a) b = write_at c pos (a @ b)"
proof (cases "a = [] \<or> b = []")
  case True
  then show ?thesis by (auto simp: write_at_def)
next
  case False
  then have a: "a \<noteq> []" and b: "b \<noteq> []" and ab: "a @ b \<noteq> []" by auto
  from write_at_prefix [OF a, of pos c] obtain P where
    P: "length P = pos" "write_at c pos a = P @ a @ drop (pos + length a) c" by blast
  have Peq: "P = take pos c @ replicate (pos - length c) 0"
  proof -
    have "write_at c pos a = (take pos c @ replicate (pos - length c) 0) @ a @ drop (pos + length a) c"
      using a by (simp add: write_at_def)
    with P(2) have "P @ (a @ drop (pos + length a) c)
        = (take pos c @ replicate (pos - length c) 0) @ (a @ drop (pos + length a) c)" by simp
    then show ?thesis by simp
  qed
  let ?D = "drop (pos + length a) c"
  have t: "take (pos + length a) (P @ a @ ?D) = P @ a"
    using P(1) by simp
  have d: "drop (pos + length a + length b) (P @ a @ ?D) = drop (pos + length a + length b) c"
    using P(1) by (simp add: add.commute add.left_commute)
  have "write_at (P @ a @ ?D) (pos + length a) b
     = take (pos + length a) (P @ a @ ?D)
        @ replicate (pos + length a - length (P @ a @ ?D)) 0 @ b
        @ drop (pos + length a + length b) (P @ a @ ?D)"
    using b by (simp add: write_at_def)
  also have "\<dots> = (P @ a) @ b @ drop (pos + length a + length b) c"
    unfolding t d using P(1) by simp
  also have "\<dots> = write_at c pos (a @ b)"
    using a b by (simp add: write_at_def Peq add.assoc)
  finally show ?thesis by (simp only: P(2))
qed

lemma contents_upd: "contents (f(p \<mapsto> c)) q = (if q = p then c else contents f q)"
  by (simp add: contents_def)

lemma Write_ok:
  "Write WriteAll None r (f, w)
   = (None, f(file_wal w \<mapsto> write_at (contents f (file_wal w)) (pos_wal w) (Write_buf r)),
      w\<lparr>pos_wal := pos_wal w + length (Write_buf r),
        size_wal := size_wal w + length (Write_buf r)\<rparr>)"
  by (simp add: Write_def write_file_def Let_def)

lemma Writes_state:
  "\<exists>f'. Writes rs (f, w)
     = (None, f',
        w\<lparr>pos_wal := pos_wal w + length (concat (map Write_buf rs)),
          size_wal := size_wal w + length (concat (map Write_buf rs))\<rparr>)
     \<and> (\<forall>p. contents f' p
          = (if p = file_wal w \<and> rs \<noteq> []
             then write_at (contents f p) (pos_wal w) (concat (map Write_buf rs))
             else contents f p))"
proof (induction rs arbitrary: f w)
  case Nil
  show ?case by simp
next
  case (Cons r rs)
  let ?f1 = "f(file_wal w \<mapsto> write_at (contents f (file_wal w)) (pos_wal w) (Write_buf r))"
  let ?w1 = "w\<lparr>pos_wal := pos_wal w + length (Write_buf r),
        size_wal := size_wal w + length (Write_buf r)\<rparr>"
  from Cons.IH [of ?f1 ?w1] obtain f' where
    W: "Writes rs (?f1, ?w1)
     = (None, f',
        ?w1\<lparr>pos_wal := pos_wal ?w1 + length (concat (map Write_buf rs)),
          size_wal := size_wal ?w1 + length (concat (map Write_buf rs))\<rparr>)"
    and C: "\<And>p. contents f' p
          = (if p = file_wal ?w1 \<and> rs \<noteq> []
             then write_at (contents ?f1 p) (pos_wal ?w1) (concat (map Write_buf rs))
             else contents ?f1 p)"
    by blast
  have 1: "Writes (r # rs) (f, w) = (None, f',
        w\<lparr>pos_wal := pos_wal w + length (concat (map Write_buf (r # rs))),
          size_wal := size_wal w + length (concat (map Write_buf (r # rs)))\<rparr>)"
    by (simp add: Write_ok W add.assoc)
  have 2: "contents f' p
          = (if p = file_wal w \<and> r # rs \<noteq> []
             then write_at (contents f p) (pos_wal w) (concat (map Write_buf (r # rs)))
             else contents f p)" for p
  proof (cases "rs = []")
    case True
    then show ?thesis by (simp add: C contents_upd)
  next
    case False
    then show ?thesis
      by (simp add: C contents_upd write_at_write_at)
  qed
  from 1 2 show ?case by blast
qed




lemma Next_contents_cong:
  "contents f1 (file_it it) = contents f2 (file_it it) \<Longrightarrow> Next f1 it = Next f2 it"
  unfolding Next_def by (simp only:)

lemma Nexts_contents_cong:
  "contents f1 (file_it it) = contents f2 (file_it it) \<Longrightarrow> Nexts n f1 it = Nexts n f2 it"
proof (induction n arbitrary: it)
  case 0
  show ?case by simp
next
  case (Suc n)
  have N: "Next f1 it = Next f2 it" by (rule Next_contents_cong [OF Suc.prems])
  obtain r it' where R: "Next f2 it = (r, it')" by (cases "Next f2 it")
  have "file_it it' = file_it it"
    using R by (auto simp: Next_def Let_def split: if_splits list.splits sum.splits prod.splits)
  with Suc.prems have "contents f1 (file_it it') = contents f2 (file_it it')" by simp
  from Suc.IH [OF this] show ?case by (simp add: N R)
qed

text \<open>
  Claim C8 (batch equivalence). The buffer that \<open>WriteBatch\<close> builds for the records
  \<open>rs\<close> is the concatenation of the buffers that \<open>Write\<close> builds for each of them,
  every record with the checksum of its own bytes; and from any state of the file system
  and of the log, \<open>WriteBatch rs\<close> and the sequence of \<open>Write\<close> calls return the same
  result, leave the same log handle and the same contents of every file, hence the same
  results of any number of \<open>Next\<close> calls of any iterator.
\<close>

theorem batch_equivalence:
  "WriteBatch_loop [] rs = concat (map Write_buf rs)
   \<and> fst (WriteBatch WriteAll None rs (f, w)) = fst (Writes rs (f, w))
   \<and> snd (snd (WriteBatch WriteAll None rs (f, w))) = snd (snd (Writes rs (f, w)))
   \<and> contents (fst (snd (WriteBatch WriteAll None rs (f, w)))) p
       = contents (fst (snd (Writes rs (f, w)))) p
   \<and> Nexts n (fst (snd (WriteBatch WriteAll None rs (f, w)))) it
       = Nexts n (fst (snd (Writes rs (f, w)))) it"
proof -
  let ?buf = "concat (map Write_buf rs)"
  have B: "WriteBatch_loop [] rs = ?buf"
    by (simp add: WriteBatch_loop_concat)
  from Writes_state [of rs f w] obtain f' where
    W: "Writes rs (f, w)
     = (None, f',
        w\<lparr>pos_wal := pos_wal w + length ?buf, size_wal := size_wal w + length ?buf\<rparr>)"
    and C: "\<And>p. contents f' p
          = (if p = file_wal w \<and> rs \<noteq> []
             then write_at (contents f p) (pos_wal w) ?buf
             else contents f p)"
    by blast
  have WB: "WriteBatch WriteAll None rs (f, w)
     = (None, f(file_wal w \<mapsto> write_at (contents f (file_wal w)) (pos_wal w) ?buf),
        w\<lparr>pos_wal := pos_wal w + length ?buf, size_wal := size_wal w + length ?buf\<rparr>)"
    by (simp add: WriteBatch_def write_file_def Let_def B)
  have cont: "contents (fst (snd (WriteBatch WriteAll None rs (f, w)))) q
       = contents (fst (snd (Writes rs (f, w)))) q" for q
  proof -
    have "contents (f(file_wal w \<mapsto> write_at (contents f (file_wal w)) (pos_wal w) ?buf)) q
          = contents f' q"
      by (cases "rs = []") (auto simp: C contents_upd write_at_def)
    then show ?thesis by (simp add: WB W)
  qed
  have "Nexts n (fst (snd (WriteBatch WriteAll None rs (f, w)))) it
       = Nexts n (fst (snd (Writes rs (f, w)))) it"
    by (rule Nexts_contents_cong) (rule cont)
  with B cont show ?thesis by (simp add: WB W)
qed

lemma readUvarint_loop_consumes:
  "readUvarint_loop x s i r = Inr (v, n, r') \<Longrightarrow>
   i < n \<and> n - i \<le> length r \<and> r' = drop (n - i) r"
proof (induction r arbitrary: x s i)
  case Nil
  then show ?case by simp
next
  case (Cons b r)
  show ?case
  proof (cases "b < 0x80")
    case True
    with Cons.prems show ?thesis by (auto split: if_splits)
  next
    case False
    with Cons.prems have
      "readUvarint_loop (x OR push_bit s (ucast (b AND 0x7f))) (s + 7) (Suc i) r = Inr (v, n, r')"
      by simp
    from Cons.IH [OF this] have "Suc i < n" "n - Suc i \<le> length r" "r' = drop (n - Suc i) r"
      by auto
    moreover from \<open>Suc i < n\<close> have "n - i = Suc (n - Suc i)" by simp
    ultimately show ?thesis by simp
  qed
qed

lemma readUvarint_consumes:
  "readUvarint r = Inr (v, n, r') \<Longrightarrow> 0 < n \<and> n \<le> length r \<and> r' = drop n r"
  using readUvarint_loop_consumes [of 0 0 0 r v n r'] by (simp add: readUvarint_def)

lemma ReadFull_Inr:
  "ReadFull n r = Inr (xs, r') \<Longrightarrow> n \<le> length r \<and> xs = take n r \<and> r' = drop n r"
  by (auto simp: ReadFull_def split: if_splits)

lemma ReadFull_ok: "n \<le> length r \<Longrightarrow> ReadFull n r = Inr (take n r, drop n r)"
  by (auto simp: ReadFull_def)

lemma Next_eof: "fileEnd it \<le> offset it \<Longrightarrow> Next f it = (Err EOF, it)"
  by (simp add: Next_def)

lemma Next_invalid_checksum:
  assumes o: "offset it < fileEnd it"
    and d: "drop (offset it) (contents f (file_it it)) = t # r1"
    and t: "t = TypePut \<or> t = TypeDelete"
    and k: "readUvarint r1 = Inr (keyLen, n1, r2)"
    and v: "readUvarint r2 = Inr (valueLen, n2, r3)"
    and mk: "makeslice_ok keyLen" "makeslice_ok valueLen"
    and len: "unat keyLen + unat valueLen + 4 \<le> length r3"
    and crc: "ChecksumIEEE (take (1 + n1 + n2 + unat keyLen + unat valueLen) (t # r1))
              \<noteq> Uint32 (take 4 (drop (unat keyLen + unat valueLen) r3))"
  shows "Next f it = (Err ErrInvalidChecksum, it)"
proof -
  from readUvarint_consumes [OF k] have c1: "n1 \<le> length r1" "r2 = drop n1 r1" by auto
  from readUvarint_consumes [OF v] have c2: "n2 \<le> length r2" "r3 = drop n2 r2" by auto
  have l3: "length r3 = length r1 - n1 - n2" using c1 c2 by simp
  have rk: "ReadFull (unat keyLen) r3 = Inr (take (unat keyLen) r3, drop (unat keyLen) r3)"
    using len by (intro ReadFull_ok) simp
  have rv: "ReadFull (unat valueLen) (drop (unat keyLen) r3)
     = Inr (take (unat valueLen) (drop (unat keyLen) r3), drop (unat keyLen + unat valueLen) r3)"
    using len by (simp add: ReadFull_ok add.commute)
  have rc: "ReadFull 4 (drop (unat keyLen + unat valueLen) r3)
     = Inr (take 4 (drop (unat keyLen + unat valueLen) r3),
            drop 4 (drop (unat keyLen + unat valueLen) r3))"
    using len by (intro ReadFull_ok) simp
  have sz: "1 + n1 + n2 + unat keyLen + unat valueLen + 4 - 4
            = 1 + n1 + n2 + unat keyLen + unat valueLen" by simp
  have "1 + n1 + n2 + unat keyLen + unat valueLen \<le> length (t # r1)"
    using len l3 c1 c2 by simp
  then have rd: "ReadFull (1 + n1 + n2 + unat keyLen + unat valueLen) (t # r1)
     = Inr (take (1 + n1 + n2 + unat keyLen + unat valueLen) (t # r1),
            drop (1 + n1 + n2 + unat keyLen + unat valueLen) (t # r1))"
    by (rule ReadFull_ok)
  have o': "\<not> fileEnd it \<le> offset it" using o by simp
  have t': "\<not> (t \<noteq> TypePut \<and> t \<noteq> TypeDelete)" using t by simp
  show ?thesis
    unfolding Next_def
    by (simp only: o' if_False d list.case t' k v sum.case prod.case mk not_True_eq_False
        rk rv rc Let_def sz rd crc if_True simp_thms)
qed

lemma Next_Ok:
  assumes N: "Next f it = (Ok rec, it')"
  shows "\<exists>vk vv c rest.
      drop (offset it) (contents f (file_it it))
        = Type rec # vk @ vv @ Key rec @ Value rec @ c @ rest
    \<and> (Type rec = TypePut \<or> Type rec = TypeDelete)
    \<and> (\<exists>r. readUvarint (vk @ vv @ Key rec @ Value rec @ c @ rest)
            = Inr (word_of_nat (length (Key rec)), length vk, r))
    \<and> (\<exists>r. readUvarint (vv @ Key rec @ Value rec @ c @ rest)
            = Inr (word_of_nat (length (Value rec)), length vv, r))
    \<and> length c = 4
    \<and> Uint32 c = ChecksumIEEE (Type rec # vk @ vv @ Key rec @ Value rec)
    \<and> offset it < fileEnd it
    \<and> it' = it\<lparr>offset := offset it
          + (1 + length vk + length vv + length (Key rec) + length (Value rec) + 4)\<rparr>"
proof -
  from N have o: "offset it < fileEnd it"
    by (auto simp: Next_def split: if_splits)
  from N o obtain t r1 where d: "drop (offset it) (contents f (file_it it)) = t # r1"
    by (cases "drop (offset it) (contents f (file_it it))") (auto simp: Next_def)
  from N o d have t: "t = TypePut \<or> t = TypeDelete"
    by (auto simp: Next_def split: if_splits)
  from N o d t obtain keyLen n1 r2 where k: "readUvarint r1 = Inr (keyLen, n1, r2)"
    by (cases "readUvarint r1") (auto simp: Next_def)
  from N o d t k obtain valueLen n2 r3 where v: "readUvarint r2 = Inr (valueLen, n2, r3)"
    by (cases "readUvarint r2") (auto simp: Next_def)
  from N o d t k v have mk: "makeslice_ok keyLen"
    by (auto simp: Next_def split: if_splits)
  from N o d t k v mk obtain key r4 where rk: "ReadFull (unat keyLen) r3 = Inr (key, r4)"
    by (cases "ReadFull (unat keyLen) r3") (auto simp: Next_def)
  from N o d t k v mk rk have mv: "makeslice_ok valueLen"
    by (auto simp: Next_def split: if_splits)
  from N o d t k v mk rk mv obtain val r5 where rv: "ReadFull (unat valueLen) r4 = Inr (val, r5)"
    by (cases "ReadFull (unat valueLen) r4") (auto simp: Next_def)
  from N o d t k v mk rk mv rv obtain c r6 where rc: "ReadFull 4 r5 = Inr (c, r6)"
    by (cases "ReadFull 4 r5") (auto simp: Next_def)
  let ?n = "1 + n1 + n2 + unat keyLen + unat valueLen"
  let ?m = "1 + n1 + n2 + unat keyLen + unat valueLen + 4 - 4"
  have mn: "?m = ?n" by simp
  from N o d t k v mk rk mv rv rc obtain data r7 where
    rd': "ReadFull ?m (t # r1) = Inr (data, r7)"
    by (cases "ReadFull ?m (t # r1)") (auto simp: Next_def Let_def)
  from N o d t k v mk rk mv rv rc rd' have
    crc: "ChecksumIEEE data = Uint32 c"
    and rec: "rec = \<lparr>Type = t, Key = key, Value = val\<rparr>"
    and it': "it' = it\<lparr>offset := offset it + (?n + 4)\<rparr>"
    by (auto simp: Next_def Let_def split: if_splits)
  from rd' have rd: "ReadFull ?n (t # r1) = Inr (data, r7)" by (simp only: mn)
  from readUvarint_consumes [OF k] have c1: "n1 \<le> length r1" "r2 = drop n1 r1" by auto
  from readUvarint_consumes [OF v] have c2: "n2 \<le> length r2" "r3 = drop n2 r2" by auto
  from ReadFull_Inr [OF rk] have c3: "unat keyLen \<le> length r3" "key = take (unat keyLen) r3"
    "r4 = drop (unat keyLen) r3" by auto
  from ReadFull_Inr [OF rv] have c4: "unat valueLen \<le> length r4" "val = take (unat valueLen) r4"
    "r5 = drop (unat valueLen) r4" by auto
  from ReadFull_Inr [OF rc] have c5: "4 \<le> length r5" "c = take 4 r5" "r6 = drop 4 r5" by auto
  from ReadFull_Inr [OF rd] have c6: "data = take ?n (t # r1)" by auto
  obtain vk where e1: "r1 = vk @ r2" and lvk: "length vk = n1"
    using c1 by (metis append_take_drop_id length_take min_absorb2)
  obtain vv where e2: "r2 = vv @ r3" and lvv: "length vv = n2"
    using c2 by (metis append_take_drop_id length_take min_absorb2)
  have e3: "r3 = key @ r4" using c3 by simp
  have e4: "r4 = val @ r5" using c4 by simp
  have e5: "r5 = c @ r6" using c5 by simp
  have lk: "length key = unat keyLen" using c3 by simp
  have lv: "length val = unat valueLen" using c4 by simp
  have lc: "length c = 4" using c5 by simp
  have r2: "r2 = vv @ key @ val @ c @ r6"
    using e2 e3 e4 e5 by simp
  have r1: "r1 = vk @ vv @ key @ val @ c @ r6"
    using e1 r2 by simp
  have wk: "word_of_nat (length key) = keyLen" by (simp add: lk)
  have wv: "word_of_nat (length val) = valueLen" by (simp add: lv)
  have data: "data = t # vk @ vv @ key @ val"
  proof -
    have "?n = length (t # vk @ vv @ key @ val)"
      by (simp add: lk lv lvk lvv)
    moreover have "t # r1 = (t # vk @ vv @ key @ val) @ (c @ r6)"
      using r1 by simp
    ultimately show ?thesis unfolding c6 by (metis append_eq_conv_conj)
  qed
  have k': "readUvarint (vk @ vv @ key @ val @ c @ r6)
            = Inr (word_of_nat (length key), length vk, r2)"
    using k by (simp only: wk lvk flip: r1)
  have v': "readUvarint (vv @ key @ val @ c @ r6)
            = Inr (word_of_nat (length val), length vv, r3)"
    using v by (simp only: wv lvv flip: r2)
  have d': "drop (offset it) (contents f (file_it it))
        = Type rec # vk @ vv @ Key rec @ Value rec @ c @ r6"
    using d r1 by (simp add: rec)
  have crc': "Uint32 c = ChecksumIEEE (Type rec # vk @ vv @ Key rec @ Value rec)"
    using crc data by (simp add: rec)
  have it'': "it' = it\<lparr>offset := offset it
          + (1 + length vk + length vv + length (Key rec) + length (Value rec) + 4)\<rparr>"
    using it' by (simp add: rec lk lv lvk lvv)
  have t'': "Type rec = TypePut \<or> Type rec = TypeDelete" using t by (simp add: rec)
  from k' have k'': "\<exists>r. readUvarint (vk @ vv @ Key rec @ Value rec @ c @ r6)
            = Inr (word_of_nat (length (Key rec)), length vk, r)"
    by (simp add: rec)
  from v' have v'': "\<exists>r. readUvarint (vv @ Key rec @ Value rec @ c @ r6)
            = Inr (word_of_nat (length (Value rec)), length vv, r)"
    by (simp add: rec)
  from d' t'' k'' v'' lc crc' o it'' show ?thesis by blast
qed

text \<open>
  Claim C9 (what \<open>Next\<close> returns). With the offset at or past the end offset taken when
  the iterator was made, \<open>Next\<close> returns the end-of-log signal \<open>io.EOF\<close> and no other
  error. When the bytes at the offset read as a record (a type byte of Put or Delete, two
  varints, a key and a value of those lengths and four checksum bytes) whose stored
  checksum differs from the CRC32 of its header and payload bytes, \<open>Next\<close> returns
  \<open>ErrInvalidChecksum\<close> and the iterator is as before. When \<open>Next\<close> returns a record,
  the bytes at the old offset are the type, the two varints of the key and value lengths,
  the key, the value and the four bytes of their checksum, and the new offset is the old
  one plus the number of exactly these bytes.
\<close>

theorem wal_iterator_next:
  "(fileEnd it \<le> offset it \<longrightarrow> Next f it = (Err EOF, it))
   \<and> (offset it < fileEnd it
        \<and> drop (offset it) (contents f (file_it it)) = t # r1
        \<and> (t = TypePut \<or> t = TypeDelete)
        \<and> readUvarint r1 = Inr (keyLen, n1, r2)
        \<and> readUvarint r2 = Inr (valueLen, n2, r3)
        \<and> makeslice_ok keyLen \<and> makeslice_ok valueLen
        \<and> unat keyLen + unat valueLen + 4 \<le> length r3
        \<and> ChecksumIEEE (take (1 + n1 + n2 + unat keyLen + unat valueLen) (t # r1))
            \<noteq> Uint32 (take 4 (drop (unat keyLen + unat valueLen) r3))
        \<longrightarrow> Next f it = (Err ErrInvalidChecksum, it))
   \<and> (Next f it = (Ok rec, it') \<longrightarrow>
        (\<exists>vk vv c rest.
            drop (offset it) (contents f (file_it it))
              = Type rec # vk @ vv @ Key rec @ Value rec @ c @ rest
          \<and> (Type rec = TypePut \<or> Type rec = TypeDelete)
          \<and> (\<exists>r. readUvarint (vk @ vv @ Key rec @ Value rec @ c @ rest)
                  = Inr (word_of_nat (length (Key rec)), length vk, r))
          \<and> (\<exists>r. readUvarint (vv @ Key rec @ Value rec @ c @ rest)
                  = Inr (word_of_nat (length (Value rec)), length vv, r))
          \<and> length c = 4
          \<and> Uint32 c = ChecksumIEEE (Type rec # vk @ vv @ Key rec @ Value rec)
          \<and> offset it < fileEnd it
          \<and> it' = it\<lparr>offset := offset it
                + (1 + length vk + length vv + length (Key rec) + length (Value rec) + 4)\<rparr>))"
proof (intro conjI impI)
  assume "fileEnd it \<le> offset it"
  then show "Next f it = (Err EOF, it)" by (rule Next_eof)
next
  assume "offset it < fileEnd it
        \<and> drop (offset it) (contents f (file_it it)) = t # r1
        \<and> (t = TypePut \<or> t = TypeDelete)
        \<and> readUvarint r1 = Inr (keyLen, n1, r2)
        \<and> readUvarint r2 = Inr (valueLen, n2, r3)
        \<and> makeslice_ok keyLen \<and> makeslice_ok valueLen
        \<and> unat keyLen + unat valueLen + 4 \<le> length r3
        \<and> ChecksumIEEE (take (1 + n1 + n2 + unat keyLen + unat valueLen) (t # r1))
            \<noteq> Uint32 (take 4 (drop (unat keyLen + unat valueLen) r3))"
  then show "Next f it = (Err ErrInvalidChecksum, it)"
    by (intro Next_invalid_checksum [where t = t and ?r1.0 = r1 and keyLen = keyLen
          and ?n1.0 = n1 and ?r2.0 = r2 and valueLen = valueLen and ?n2.0 = n2 and ?r3.0 = r3])
       simp_all
next
  assume "Next f it = (Ok rec, it')"
  then show "\<exists>vk vv c rest.
            drop (offset it) (contents f (file_it it))
              = Type rec # vk @ vv @ Key rec @ Value rec @ c @ rest
          \<and> (Type rec = TypePut \<or> Type rec = TypeDelete)
          \<and> (\<exists>r. readUvarint (vk @ vv @ Key rec @ Value rec @ c @ rest)
                  = Inr (word_of_nat (length (Key rec)), length vk, r))
          \<and> (\<exists>r. readUvarint (vv @ Key rec @ Value rec @ c @ rest)
                  = Inr (word_of_nat (length (Value rec)), length vv, r))
          \<and> length c = 4
          \<and> Uint32 c = ChecksumIEEE (Type rec # vk @ vv @ Key rec @ Value rec)
          \<and> offset it < fileEnd it
          \<and> it' = it\<lparr>offset := offset it
                + (1 + length vk + length vv + length (Key rec) + length (Value rec) + 4)\<rparr>"
    by (rule Next_Ok)
qed

lemma funpow8: "(g ^^ 8) x = g (g (g (g (g (g (g (g x)))))))"
  by (simp add: eval_nat_numeral)

lemma crc_100: "ChecksumIEEE [1, 0, 0] = 4270043941"
  by (simp add: ChecksumIEEE_def crc_byte_def crc_bit_def funpow8)

theorem wal_iterator_next_witness:
  "(fileEnd \<lparr>file_it = ''wal'', offset = 0, fileEnd = 0\<rparr>
      \<le> offset \<lparr>file_it = ''wal'', offset = 0, fileEnd = 0\<rparr>
    \<and> Next (Map.empty(''wal'' \<mapsto> [])) \<lparr>file_it = ''wal'', offset = 0, fileEnd = 0\<rparr>
        = (Err EOF, \<lparr>file_it = ''wal'', offset = 0, fileEnd = 0\<rparr>))
   \<and> Next (Map.empty(''wal'' \<mapsto> [1, 0, 0, 0, 0, 0, 0]))
          \<lparr>file_it = ''wal'', offset = 0, fileEnd = 7\<rparr>
        = (Err ErrInvalidChecksum, \<lparr>file_it = ''wal'', offset = 0, fileEnd = 7\<rparr>)
   \<and> Next (Map.empty(''wal'' \<mapsto> [1, 0, 0, 37, 179, 131, 254]))
          \<lparr>file_it = ''wal'', offset = 0, fileEnd = 7\<rparr>
        = (Ok \<lparr>Type = 1, Key = [], Value = []\<rparr>, \<lparr>file_it = ''wal'', offset = 7, fileEnd = 7\<rparr>)
   \<and> (\<exists>vk vv c rest. [1, 0, 0, 37, 179, 131, 254] = (1 :: byte) # vk @ vv @ c @ rest
         \<and> length c = 4 \<and> 7 = 1 + length vk + length vv + 4)"
proof -
  let ?ia = "\<lparr>file_it = ''wal'', offset = 0, fileEnd = 0\<rparr>"
  let ?ib = "\<lparr>file_it = ''wal'', offset = 0, fileEnd = 7\<rparr>"
  let ?ic = "\<lparr>file_it = ''wal'', offset = 7, fileEnd = 7\<rparr>"
  let ?fa = "Map.empty(''wal'' \<mapsto> ([] :: byte list))"
  let ?fb = "Map.empty(''wal'' \<mapsto> [1, 0, 0, 0, 0, 0, 0 :: byte])"
  let ?fc = "Map.empty(''wal'' \<mapsto> [1, 0, 0, 37, 179, 131, 254 :: byte])"
  let ?rec = "\<lparr>Type = 1, Key = [], Value = []\<rparr>"
  have ru: "readUvarint (0 # xs) = Inr (0, 1, xs)" for xs
    by (simp add: readUvarint_def)
  have A: "fileEnd ?ia \<le> offset ?ia \<and> Next ?fa ?ia = (Err EOF, ?ia)"
    using wal_iterator_next [where it = ?ia and f = ?fa] by simp
  have B: "Next ?fb ?ib = (Err ErrInvalidChecksum, ?ib)"
    using wal_iterator_next [where it = ?ib and f = ?fb and t = 1
        and ?r1.0 = "[0, 0, 0, 0, 0, 0]" and keyLen = 0 and ?n1.0 = 1
        and ?r2.0 = "[0, 0, 0, 0, 0]" and valueLen = 0 and ?n2.0 = 1 and ?r3.0 = "[0, 0, 0, 0]"]
    by (simp add: contents_def TypePut_def ru makeslice_ok_def crc_100)
  have N: "Next ?fc ?ib = (Ok ?rec, ?ic)"
    by (simp add: Next_def contents_def TypePut_def ru makeslice_ok_def ReadFull_def
        crc_100 Let_def)
  have C: "\<exists>vk vv c rest. [1, 0, 0, 37, 179, 131, 254] = (1 :: byte) # vk @ vv @ c @ rest
         \<and> length c = 4 \<and> 7 = 1 + length vk + length vv + 4"
  proof -
    from wal_iterator_next [where it = ?ib and f = ?fc and rec = ?rec and it' = ?ic] N
    obtain vk vv c rest where
      "drop (offset ?ib) (contents ?fc (file_it ?ib))
         = Type ?rec # vk @ vv @ Key ?rec @ Value ?rec @ c @ rest"
      "length c = 4"
      "?ic = ?ib\<lparr>offset := offset ?ib
          + (1 + length vk + length vv + length (Key ?rec) + length (Value ?rec) + 4)\<rparr>"
      by blast
    then have "[1, 0, 0, 37, 179, 131, 254] = (1 :: byte) # vk @ vv @ c @ rest
         \<and> length c = 4 \<and> 7 = 1 + length vk + length vv + 4"
      by (simp add: contents_def)
    then show ?thesis by blast
  qed
  from A B N C show ?thesis by blast
qed


lemma PutUvarint_small: "x < 0x80 \<Longrightarrow> PutUvarint x = [ucast x]"
  by (subst PutUvarint.simps) (simp add: not_le)

lemma crc_old: "ChecksumIEEE [1, 2, 2, 97, 98, 99, 100] = 3235198124"
  by (simp add: ChecksumIEEE_def crc_byte_def crc_bit_def funpow8)

lemma crc_new: "ChecksumIEEE [2, 1, 0, 97] = 2956602478"
  by (simp add: ChecksumIEEE_def crc_byte_def crc_bit_def funpow8)

lemma body_old: "record_body old_record = [1, 2, 2, 97, 98, 99, 100]"
  by (simp add: record_body_def old_record_def encodeVarint_def TypePut_def PutUvarint_small
      del: PutUvarint.simps)

lemma body_new: "record_body new_record = [2, 1, 0, 97]"
  by (simp add: record_body_def new_record_def encodeVarint_def TypeDelete_def PutUvarint_small
      del: PutUvarint.simps)

lemma Write_buf_old_record:
  "Write_buf old_record = [1, 2, 2, 97, 98, 99, 100, 172, 52, 213, 192]"
  by (simp add: Write_buf_eq body_old crc_old PutUint32_def)

lemma Write_buf_new_record:
  "Write_buf new_record = [2, 1, 0, 97, 110, 44, 58, 176]"
  by (simp add: Write_buf_eq body_new crc_new PutUint32_def)

text \<open>
  Claim C2 (the file is a concatenation of complete records), at a log that holds the
  record Put(ab,cd) and is opened again: \<open>Open\<close> leaves the handle at offset 0 and
  sets \<open>size\<close> to the file's 11 bytes, so the \<open>Write\<close> of Delete(a) replaces the
  first 8 bytes of the old record instead of following it. The file is then the new
  record and the last 3 bytes of the old one, \<open>size\<close> is 19 for a file of 11 bytes,
  and the second \<open>Next\<close> of a new iterator fails with \<open>ErrInvalidRecord\<close>.
\<close>

theorem reopen_then_write_overwrites:
  "\<exists>w f1 f2 w2 it.
      Open None None ''wal'' False (Map.empty(''wal'' \<mapsto> Write_buf old_record)) = (Ok w, f1)
    \<and> Write WriteAll None new_record (f1, w) = (None, f2, w2)
    \<and> contents f2 ''wal'' = Write_buf new_record @ drop 8 (Write_buf old_record)
    \<and> contents f2 ''wal'' \<noteq> Write_buf old_record @ Write_buf new_record
    \<and> length (contents f2 ''wal'') = 11
    \<and> size_wal w2 = 19
    \<and> NewIterator None w2 = Ok it
    \<and> Nexts 2 f2 it = [Ok new_record, Err ErrInvalidRecord]"
proof -
  let ?fa = "Map.empty(''wal'' \<mapsto> Write_buf old_record)"
  let ?w = "\<lparr>file_wal = ''wal'', pos_wal = 0, size_wal = 11, syncOps = False\<rparr>"
  let ?c = "[2, 1, 0, 97, 110, 44, 58, 176, 52, 213, 192] :: byte list"
  let ?fb = "Map.empty(''wal'' \<mapsto> ?c)"
  let ?wb = "\<lparr>file_wal = ''wal'', pos_wal = 8, size_wal = 19, syncOps = False\<rparr>"
  let ?ia = "\<lparr>file_it = ''wal'', offset = 0, fileEnd = 19\<rparr>"
  let ?ib = "\<lparr>file_it = ''wal'', offset = 8, fileEnd = 19\<rparr>"
  have O: "Open None None ''wal'' False ?fa = (Ok ?w, ?fa)"
    by (simp add: Open_def contents_def Write_buf_old_record)
  have W: "Write WriteAll None new_record (?fa, ?w) = (None, ?fb, ?wb)"
    by (simp add: Write_def write_file_def Let_def contents_def write_at_def
        Write_buf_old_record Write_buf_new_record)
  have c: "contents ?fb ''wal'' = ?c" by (simp add: contents_def)
  have I: "NewIterator None ?wb = Ok ?ia" by (simp add: NewIterator_def)
  have v: "valid_record new_record"
    by (simp add: valid_record_def new_record_def)
  have l: "length (Write_buf new_record) = 8" by (simp add: Write_buf_new_record)
  have d: "drop (offset ?ia) (contents ?fb (file_it ?ia)) = Write_buf new_record @ [52, 213, 192]"
    by (simp add: contents_def Write_buf_new_record)
  have o: "offset ?ia < fileEnd ?ia" by simp
  have N1: "Next ?fb ?ia = (Ok new_record, ?ib)"
    using Next_Write_buf [OF v d o] by (simp add: l)
  have N2: "Next ?fb ?ib = (Err ErrInvalidRecord, ?ib)"
    by (simp add: Next_def contents_def TypePut_def TypeDelete_def)
  have N: "Nexts 2 ?fb ?ia = [Ok new_record, Err ErrInvalidRecord]"
    by (simp add: numeral_2_eq_2 N1 N2)
  have "contents ?fb ''wal'' = Write_buf new_record @ drop 8 (Write_buf old_record)"
    "contents ?fb ''wal'' \<noteq> Write_buf old_record @ Write_buf new_record"
    "length (contents ?fb ''wal'') = 11"
    by (simp_all add: contents_def Write_buf_old_record Write_buf_new_record)
  with O W I N show ?thesis by (intro exI [of _ ?w] exI [of _ ?fa] exI [of _ ?fb] exI [of _ ?wb] exI [of _ ?ia]) simp
qed

section \<open>Properties of the MemTable\<close>

text \<open>
  Claim C3 (log before memory). When the \<open>Write\<close> of the record that \<open>Put\<close> or
  \<open>Delete\<close> of the MemTable makes returns an error, the call returns that error and
  the skip list of the MemTable is the one before the call.
\<close>

theorem log_before_memory:
  "(fst (Write wo sync_err \<lparr>Type = TypePut, Key = k, Value = v\<rparr> (f, log m)) = Some e \<longrightarrow>
      fst (Put wo sync_err k v (f, m)) = Some (Err e)
      \<and> skipList (snd (snd (Put wo sync_err k v (f, m)))) = skipList m)
   \<and> (fst (Write wo sync_err \<lparr>Type = TypeDelete, Key = k, Value = []\<rparr> (f, log m)) = Some e \<longrightarrow>
      fst (Delete_mt wo sync_err k (f, m)) = Some (Err e)
      \<and> skipList (snd (snd (Delete_mt wo sync_err k (f, m)))) = skipList m)"
  by (auto simp: Put_def Delete_mt_def Let_def split: prod.splits option.splits)

lemma Write_fails:
  "fst (Write (WriteFail n e) sync_err rec st) = Some e"
  by (simp add: Write_def write_file_def Let_def)

theorem log_before_memory_witness:
  "\<exists>sl. NewSkipList (Some BytesComparator) (\<lambda>n. False) = Ok sl
     \<and> fst (Write (WriteFail 3 (IOError ''no space left on device'')) None
              \<lparr>Type = TypePut, Key = [97], Value = [49]\<rparr>
              (Map.empty(''wal'' \<mapsto> []),
               log \<lparr>skipList = sl,
                    log = \<lparr>file_wal = ''wal'', pos_wal = 0, size_wal = 0, syncOps = False\<rparr>\<rparr>))
         = Some (IOError ''no space left on device'')
     \<and> fst (Put (WriteFail 3 (IOError ''no space left on device'')) None [97] [49]
              (Map.empty(''wal'' \<mapsto> []),
               \<lparr>skipList = sl,
                log = \<lparr>file_wal = ''wal'', pos_wal = 0, size_wal = 0, syncOps = False\<rparr>\<rparr>))
         = Some (Err (IOError ''no space left on device''))
     \<and> skipList (snd (snd (Put (WriteFail 3 (IOError ''no space left on device'')) None [97] [49]
              (Map.empty(''wal'' \<mapsto> []),
               \<lparr>skipList = sl,
                log = \<lparr>file_wal = ''wal'', pos_wal = 0, size_wal = 0, syncOps = False\<rparr>\<rparr>))))
         = sl
     \<and> fst (Write (WriteFail 3 (IOError ''no space left on device'')) None
              \<lparr>Type = TypeDelete, Key = [97], Value = []\<rparr>
              (Map.empty(''wal'' \<mapsto> []),
               log \<lparr>skipList = sl,
                    log = \<lparr>file_wal = ''wal'', pos_wal = 0, size_wal = 0, syncOps = False\<rparr>\<rparr>))
         = Some (IOError ''no space left on device'')
     \<and> fst (Delete_mt (WriteFail 3 (IOError ''no space left on device'')) None [97]
              (Map.empty(''wal'' \<mapsto> []),
               \<lparr>skipList = sl,
                log = \<lparr>file_wal = ''wal'', pos_wal = 0, size_wal = 0, syncOps = False\<rparr>\<rparr>))
         = Some (Err (IOError ''no space left on device''))"
proof -
  obtain sl :: "(byte list, byte list) SkipList"
    where sl: "NewSkipList (Some BytesComparator) (\<lambda>n. False) = Ok sl"
    by (simp add: NewSkipList_def)
  let ?e = "IOError ''no space left on device''"
  let ?m = "\<lparr>skipList = sl,
             log = \<lparr>file_wal = ''wal'', pos_wal = 0, size_wal = 0, syncOps = False\<rparr>\<rparr>"
  let ?f = "Map.empty(''wal'' \<mapsto> ([] :: byte list))"
  have w1: "fst (Write (WriteFail 3 ?e) None \<lparr>Type = TypePut, Key = [97], Value = [49]\<rparr>
              (?f, log ?m)) = Some ?e"
    by (rule Write_fails)
  have w2: "fst (Write (WriteFail 3 ?e) None \<lparr>Type = TypeDelete, Key = [97], Value = []\<rparr>
              (?f, log ?m)) = Some ?e"
    by (rule Write_fails)
  from log_before_memory [where wo = "WriteFail 3 ?e" and sync_err = None and k = "[97]"
      and v = "[49]" and f = ?f and m = ?m and e = ?e] w1 w2
  have "fst (Put (WriteFail 3 ?e) None [97] [49] (?f, ?m)) = Some (Err ?e)"
    "skipList (snd (snd (Put (WriteFail 3 ?e) None [97] [49] (?f, ?m)))) = sl"
    "fst (Delete_mt (WriteFail 3 ?e) None [97] (?f, ?m)) = Some (Err ?e)"
    by simp_all
  with sl w1 w2 show ?thesis by blast
qed

text \<open>
  Claim C10 (the nil comparator). \<open>NewSkipList\<close> panics exactly when its comparator
  is \<open>nil\<close>, and returns a list of level 1 and size 0 otherwise. \<open>New\<close> calls it
  with \<open>nil\<close>: whenever \<open>Open\<close> returns a log, \<open>New\<close> panics with the message
  of \<open>NewSkipList\<close>, whatever the path, the sync flag, the file system and the
  outcomes of the later system calls.
\<close>

theorem nil_comparator_panics:
  "((\<exists>s. (NewSkipList cmp coins :: ('k, 'v) SkipList result) = Panic s) \<longleftrightarrow> cmp = None)
   \<and> (cmp = None \<longrightarrow>
        (NewSkipList cmp coins :: ('k, 'v) SkipList result) = Panic ''Comparator can not be nil'')
   \<and> (cmp \<noteq> None \<longrightarrow>
        (\<exists>sl. (NewSkipList cmp coins :: ('k, 'v) SkipList result) = Ok sl
              \<and> level sl = 1 \<and> Size sl = 0))
   \<and> (Open open_err stat_err walPath syncWrites f = (Ok lg, f') \<longrightarrow>
        New open_err stat_err iter_err coins' walPath syncWrites f
          = (Some (Panic ''Comparator can not be nil''), f'))"
  by (auto simp: NewSkipList_def New_def Size_def split: option.splits)

theorem nil_comparator_panics_witness:
  "(NewSkipList None (\<lambda>n. False) :: (int, string) SkipList result)
      = Panic ''Comparator can not be nil''
   \<and> (\<exists>sl. (NewSkipList (Some IntComparator) (\<lambda>n. False) :: (int, string) SkipList result) = Ok sl
              \<and> level sl = 1 \<and> Size sl = 0)
   \<and> Open None None ''wal'' False Map.empty
        = (Ok \<lparr>file_wal = ''wal'', pos_wal = 0, size_wal = 0, syncOps = False\<rparr>,
           Map.empty(''wal'' \<mapsto> []))
   \<and> New None None None (\<lambda>n. False) ''wal'' False Map.empty
        = (Some (Panic ''Comparator can not be nil''), Map.empty(''wal'' \<mapsto> []))"
proof -
  have O: "Open None None ''wal'' False Map.empty
        = (Ok \<lparr>file_wal = ''wal'', pos_wal = 0, size_wal = 0, syncOps = False\<rparr>,
           Map.empty(''wal'' \<mapsto> []))"
    by (simp add: Open_def contents_def)
  have A: "(NewSkipList None (\<lambda>n. False) :: (int, string) SkipList result)
      = Panic ''Comparator can not be nil''"
    using nil_comparator_panics [where cmp = "None :: (int \<Rightarrow> int \<Rightarrow> int) option"
        and coins = "\<lambda>n. False" and 'v = string]
    by simp
  have B: "\<exists>sl. (NewSkipList (Some IntComparator) (\<lambda>n. False) :: (int, string) SkipList result) = Ok sl
              \<and> level sl = 1 \<and> Size sl = 0"
    using nil_comparator_panics [where cmp = "Some IntComparator"
        and coins = "\<lambda>n. False" and 'v = string]
    by simp
  have C: "New None None None (\<lambda>n. False) ''wal'' False Map.empty
        = (Some (Panic ''Comparator can not be nil''), Map.empty(''wal'' \<mapsto> []))"
    using nil_comparator_panics [where cmp = "None :: (int \<Rightarrow> int \<Rightarrow> int) option"
        and coins = "\<lambda>n. False" and 'v = string and open_err = None and stat_err = None
        and walPath = "''wal''" and syncWrites = False and f = Map.empty
        and lg = "\<lparr>file_wal = ''wal'', pos_wal = 0, size_wal = 0, syncOps = False\<rparr>"
        and f' = "Map.empty(''wal'' \<mapsto> [])" and iter_err = None and coins' = "\<lambda>n. False"] O
    by simp
  from A B O C show ?thesis by blast
qed

text \<open>
  Claim C1 (recovery fidelity), at the log of the claim: on a file that holds the records
  Put(a,1), Put(b,2), Delete(a), Put(a,3), \<open>New\<close> opens the log and then panics in
  \<open>NewSkipList(nil)\<close>; it returns no MemTable and replays no record.
\<close>

theorem recovery_panics:
  "New None None None coins ''wal'' False
      (Map.empty(''wal'' \<mapsto> concat (map Write_buf example_records)))
   = (Some (Panic ''Comparator can not be nil''),
      Map.empty(''wal'' \<mapsto> concat (map Write_buf example_records)))"
  by (simp add: New_def Open_def NewSkipList_def Let_def)

end
